theory Spec2Isabelle
  imports Main "HOL-Library.Sublist"
begin

section \<open>JavaScript strings\<close>

text \<open>
  A JavaScript string is a sequence of UTF-16 code units. A code unit is modelled by its
  number, so that \<open>\uXXXX\<close> escapes, control characters and the Unicode white space that
  \<^verbatim>\<open>trim\<close> removes are exactly what they are at run time. String literals of the source
  are written \<open>js ''...''\<close>.
\<close>

type_synonym jsstring = "nat list"

abbreviation js :: "string \<Rightarrow> jsstring" where
  "js s \<equiv> map of_char s"

text \<open>\<^verbatim>\<open>s.includes(t)\<close>: \<open>t\<close> occurs in \<open>s\<close> as a contiguous run of code units.\<close>

definition str_includes :: "jsstring \<Rightarrow> jsstring \<Rightarrow> bool" where
  "str_includes s t = sublist t s"

text \<open>
  \<^verbatim>\<open>s.trim()\<close> removes the code units of ECMAScript's WhiteSpace and LineTerminator
  productions from both ends.
\<close>

definition is_space :: "nat \<Rightarrow> bool" where
  "is_space c = (c \<in> {9, 10, 11, 12, 13, 32, 160, 5760, 8232, 8233, 8239, 8287, 12288, 65279}
                 \<or> (8192 \<le> c \<and> c \<le> 8202))"

definition trim :: "jsstring \<Rightarrow> jsstring" where
  "trim s = rev (dropWhile is_space (rev (dropWhile is_space s)))"

text \<open>
  Number-to-string conversion of a template literal, for the integers that occur as
  message ids, dates, byte counts, durations and status codes: the decimal digits, with a
  minus sign for a negative number (the form JavaScript prints below \<open>10\<^sup>2\<^sup>1\<close>).
\<close>

fun show_nat :: "nat \<Rightarrow> jsstring" where
  "show_nat n = (if n < 10 then [48 + n] else show_nat (n div 10) @ [48 + n mod 10])"

declare show_nat.simps [simp del]

definition show_int :: "int \<Rightarrow> jsstring" where
  "show_int i = (if i < 0 then 45 # show_nat (nat (- i)) else show_nat (nat i))"

section \<open>Messages and the fingerprint\<close>

text \<open>
  The fields of a Telegram message that the program reads. A numeric property that is
  absent (\<^verbatim>\<open>undefined\<close>) is \<open>None\<close>; \<open>peerId\<close> and \<open>video\<close> are objects that may be
  absent, which the source guards with optional chaining.
\<close>

record peer =
  channelId :: "int option"
  chatId :: "int option"
  userId :: "int option"

record video =
  video_size :: "int option"
  video_duration :: "int option"

text \<open>
  The telegram library delivers the sender of a message as a big-integer object, or leaves
  it \<^verbatim>\<open>undefined\<close>. The program copies the reference and compares two of them with
  \<^verbatim>\<open>===\<close>, which on objects is identity and not equality of the numbers they hold. An
  object is therefore modelled by its identity together with its number; every message
  that the library builds has a sender object of its own.
\<close>

record big_integer =
  object_id :: nat
  big_value :: int

definition strict_equals :: "big_integer option \<Rightarrow> big_integer option \<Rightarrow> bool" where
  "strict_equals a b =
     (case a of
        None \<Rightarrow> b = None
      | Some x \<Rightarrow> (case b of None \<Rightarrow> False | Some y \<Rightarrow> object_id x = object_id y))"

record tg_message =
  peerId :: "peer option"
  msg_id :: int
  date :: int
  video :: "video option"
  message :: "jsstring option"
  senderId :: "big_integer option"

text \<open>
  \<^verbatim>\<open>a || b\<close> on numeric properties: \<open>undefined\<close> and \<open>0\<close> are the falsy values.
  \<open>or_default a d\<close> is the text that a template literal prints for \<^verbatim>\<open>a || d\<close>, where
  \<open>d\<close> is already the printed default.
\<close>

definition truthy :: "int option \<Rightarrow> bool" where
  "truthy a = (case a of None \<Rightarrow> False | Some n \<Rightarrow> n \<noteq> 0)"

definition or_else :: "int option \<Rightarrow> int option \<Rightarrow> int option" where
  "or_else a b = (if truthy a then a else b)"

definition or_default :: "int option \<Rightarrow> jsstring \<Rightarrow> jsstring" where
  "or_default a d = (case a of None \<Rightarrow> d | Some n \<Rightarrow> if n \<noteq> 0 then show_int n else d)"

text \<open>\<^verbatim>\<open>obj?.field\<close>: \<open>undefined\<close> when the object is absent.\<close>

definition opt_chain :: "'a option \<Rightarrow> ('a \<Rightarrow> int option) \<Rightarrow> int option" where
  "opt_chain obj field = (case obj of None \<Rightarrow> None | Some x \<Rightarrow> field x)"

definition generateVideoId :: "tg_message \<Rightarrow> jsstring" where
  "generateVideoId m =
     (let peerId = or_default
                     (or_else (or_else (opt_chain (peerId m) channelId)
                                       (opt_chain (peerId m) chatId))
                              (opt_chain (peerId m) userId))
                     (js ''unknown'');
          messageId = show_int (msg_id m);
          date = show_int (date m);
          videoSize = or_default (opt_chain (video m) video_size) (js ''0'');
          videoDuration = or_default (opt_chain (video m) video_duration) (js ''0'')
      in peerId @ js ''_'' @ messageId @ js ''_'' @ date @ js ''_'' @ videoSize
           @ js ''_'' @ videoDuration)"

section \<open>JSON texts\<close>

text \<open>
  \<^verbatim>\<open>JSON.parse\<close> belongs to the platform, not to the program. It is modelled after the
  JSON grammar of ECMA-404: a tokenizer that reads one code unit at a time and emits
  tokens, followed by a pushdown recogniser over the tokens that builds the value. A
  text that the grammar rejects makes \<^verbatim>\<open>JSON.parse\<close> throw a SyntaxError, which is
  the result \<open>None\<close>. A number keeps its source text: the program never inspects one.
\<close>

datatype json =
    JNull
  | JBool bool
  | JNum jsstring
  | JStr jsstring
  | JArr "json list"
  | JObj "(jsstring \<times> json) list"

datatype token =
    LBrace | RBrace | LBrack | RBrack | Colon | Comma
  | TString jsstring | TNumber jsstring | TTrue | TFalse | TNull

datatype numst = NMinus | NZero | NInt | NDot | NFrac | NE | NESign | NExp

datatype lexst =
    Idle
  | InStr jsstring
  | InEsc jsstring
  | InHex jsstring "nat list"
  | InNum numst jsstring
  | InLit jsstring token

definition is_digit :: "nat \<Rightarrow> bool" where
  "is_digit c = (48 \<le> c \<and> c \<le> 57)"

definition hex_value :: "nat \<Rightarrow> nat option" where
  "hex_value c =
     (if 48 \<le> c \<and> c \<le> 57 then Some (c - 48)
      else if 97 \<le> c \<and> c \<le> 102 then Some (c - 87)
      else if 65 \<le> c \<and> c \<le> 70 then Some (c - 55)
      else None)"

definition is_json_ws :: "nat \<Rightarrow> bool" where
  "is_json_ws c = (c = 32 \<or> c = 9 \<or> c = 10 \<or> c = 13)"

text \<open>The tokenizer between two tokens.\<close>

definition idle_step :: "nat \<Rightarrow> (token list \<times> lexst) option" where
  "idle_step c =
     (if is_json_ws c then Some ([], Idle)
      else if c = of_char CHR ''{'' then Some ([LBrace], Idle)
      else if c = of_char CHR ''}'' then Some ([RBrace], Idle)
      else if c = of_char CHR ''['' then Some ([LBrack], Idle)
      else if c = of_char CHR '']'' then Some ([RBrack], Idle)
      else if c = of_char CHR '':'' then Some ([Colon], Idle)
      else if c = of_char CHR '','' then Some ([Comma], Idle)
      else if c = 34 then Some ([], InStr [])
      else if c = of_char CHR ''-'' then Some ([], InNum NMinus [c])
      else if c = of_char CHR ''0'' then Some ([], InNum NZero [c])
      else if is_digit c then Some ([], InNum NInt [c])
      else if c = of_char CHR ''t'' then Some ([], InLit (js ''rue'') TTrue)
      else if c = of_char CHR ''f'' then Some ([], InLit (js ''alse'') TFalse)
      else if c = of_char CHR ''n'' then Some ([], InLit (js ''ull'') TNull)
      else None)"

text \<open>
  The number grammar \<open>-? (0 | [1-9][0-9]*) (. [0-9]+)? ([eE] [+-]? [0-9]+)?\<close> as an
  automaton; \<open>num_step\<close> is \<open>None\<close> when the code unit does not continue the number.
\<close>

definition is_exp :: "nat \<Rightarrow> bool" where
  "is_exp c = (c = of_char CHR ''e'' \<or> c = of_char CHR ''E'')"

fun num_step :: "numst \<Rightarrow> nat \<Rightarrow> numst option" where
  "num_step NMinus c =
     (if c = of_char CHR ''0'' then Some NZero else if is_digit c then Some NInt else None)"
| "num_step NZero c =
     (if c = of_char CHR ''.'' then Some NDot else if is_exp c then Some NE else None)"
| "num_step NInt c =
     (if is_digit c then Some NInt else if c = of_char CHR ''.'' then Some NDot
      else if is_exp c then Some NE else None)"
| "num_step NDot c = (if is_digit c then Some NFrac else None)"
| "num_step NFrac c = (if is_digit c then Some NFrac else if is_exp c then Some NE else None)"
| "num_step NE c =
     (if c = of_char CHR ''+'' \<or> c = of_char CHR ''-'' then Some NESign
      else if is_digit c then Some NExp else None)"
| "num_step NESign c = (if is_digit c then Some NExp else None)"
| "num_step NExp c = (if is_digit c then Some NExp else None)"

fun num_final :: "numst \<Rightarrow> bool" where
  "num_final NZero = True"
| "num_final NInt = True"
| "num_final NFrac = True"
| "num_final NExp = True"
| "num_final _ = False"

definition hex4 :: "nat list \<Rightarrow> nat" where
  "hex4 ds = foldl (\<lambda>a d. 16 * a + d) 0 ds"

definition esc_step :: "jsstring \<Rightarrow> nat \<Rightarrow> (token list \<times> lexst) option" where
  "esc_step acc c =
     (if c = 34 then Some ([], InStr (acc @ [34]))
      else if c = 92 then Some ([], InStr (acc @ [92]))
      else if c = of_char CHR ''/'' then Some ([], InStr (acc @ [47]))
      else if c = of_char CHR ''b'' then Some ([], InStr (acc @ [8]))
      else if c = of_char CHR ''f'' then Some ([], InStr (acc @ [12]))
      else if c = of_char CHR ''n'' then Some ([], InStr (acc @ [10]))
      else if c = of_char CHR ''r'' then Some ([], InStr (acc @ [13]))
      else if c = of_char CHR ''t'' then Some ([], InStr (acc @ [9]))
      else if c = of_char CHR ''u'' then Some ([], InHex acc [])
      else None)"

fun lex_step :: "lexst \<Rightarrow> nat \<Rightarrow> (token list \<times> lexst) option" where
  "lex_step Idle c = idle_step c"
| "lex_step (InStr acc) c =
     (if c = 34 then Some ([TString acc], Idle)
      else if c = 92 then Some ([], InEsc acc)
      else if c < 32 then None
      else Some ([], InStr (acc @ [c])))"
| "lex_step (InEsc acc) c = esc_step acc c"
| "lex_step (InHex acc ds) c =
     (case hex_value c of
        None \<Rightarrow> None
      | Some h \<Rightarrow>
          if length ds = 3 then Some ([], InStr (acc @ [hex4 (ds @ [h])]))
          else Some ([], InHex acc (ds @ [h])))"
| "lex_step (InNum ns lx) c =
     (case num_step ns c of
        Some ns' \<Rightarrow> Some ([], InNum ns' (lx @ [c]))
      | None \<Rightarrow>
          if num_final ns
          then (case idle_step c of
                  None \<Rightarrow> None
                | Some (ts, st) \<Rightarrow> Some (TNumber lx # ts, st))
          else None)"
| "lex_step (InLit rest tok) c =
     (case rest of
        [] \<Rightarrow> None
      | x # xs \<Rightarrow>
          if c \<noteq> x then None
          else if xs = [] then Some ([tok], Idle)
          else Some ([], InLit xs tok))"

fun lex_end :: "lexst \<Rightarrow> token list option" where
  "lex_end Idle = Some []"
| "lex_end (InNum ns lx) = (if num_final ns then Some [TNumber lx] else None)"
| "lex_end _ = None"

fun tokenize :: "lexst \<Rightarrow> jsstring \<Rightarrow> token list option" where
  "tokenize st [] = lex_end st"
| "tokenize st (c # cs) =
     (case lex_step st c of
        None \<Rightarrow> None
      | Some (ts, st') \<Rightarrow> map_option (\<lambda>ts'. ts @ ts') (tokenize st' cs))"

text \<open>
  The recogniser keeps a stack of the containers that are still open: an array with the
  elements read so far, an object with its members, or an object whose next member has its
  key and waits for the value.
\<close>

datatype frame =
    FArr "json list"
  | FObj "(jsstring \<times> json) list"
  | FKey "(jsstring \<times> json) list" jsstring

datatype pstate = PValue | PArrStart | PObjStart | PKey | PColon | PAfter | PDone json

fun reduce :: "json \<Rightarrow> frame list \<Rightarrow> (pstate \<times> frame list) option" where
  "reduce v [] = Some (PDone v, [])"
| "reduce v (FArr xs # stk) = Some (PAfter, FArr (xs @ [v]) # stk)"
| "reduce v (FKey ms k # stk) = Some (PAfter, FObj (ms @ [(k, v)]) # stk)"
| "reduce v (FObj ms # stk) = None"

fun value_start :: "token \<Rightarrow> frame list \<Rightarrow> (pstate \<times> frame list) option" where
  "value_start (TString s) stk = reduce (JStr s) stk"
| "value_start (TNumber lx) stk = reduce (JNum lx) stk"
| "value_start TTrue stk = reduce (JBool True) stk"
| "value_start TFalse stk = reduce (JBool False) stk"
| "value_start TNull stk = reduce JNull stk"
| "value_start LBrack stk = Some (PArrStart, FArr [] # stk)"
| "value_start LBrace stk = Some (PObjStart, FObj [] # stk)"
| "value_start _ stk = None"

fun key_start :: "token \<Rightarrow> frame list \<Rightarrow> (pstate \<times> frame list) option" where
  "key_start (TString k) (FObj ms # stk) = Some (PColon, FKey ms k # stk)"
| "key_start _ _ = None"

fun close_or_next :: "token \<Rightarrow> frame list \<Rightarrow> (pstate \<times> frame list) option" where
  "close_or_next Comma (FArr xs # stk) = Some (PValue, FArr xs # stk)"
| "close_or_next Comma (FObj ms # stk) = Some (PKey, FObj ms # stk)"
| "close_or_next RBrack (FArr xs # stk) = reduce (JArr xs) stk"
| "close_or_next RBrace (FObj ms # stk) = reduce (JObj ms) stk"
| "close_or_next t stk = None"

fun pstep :: "pstate \<Rightarrow> frame list \<Rightarrow> token \<Rightarrow> (pstate \<times> frame list) option" where
  "pstep PValue stk t = value_start t stk"
| "pstep PArrStart stk t = (if t = RBrack then close_or_next t stk else value_start t stk)"
| "pstep PObjStart stk t = (if t = RBrace then close_or_next t stk else key_start t stk)"
| "pstep PKey stk t = key_start t stk"
| "pstep PColon stk t = (if t = Colon then Some (PValue, stk) else None)"
| "pstep PAfter stk t = close_or_next t stk"
| "pstep (PDone v) stk t = None"

fun parse_tokens :: "pstate \<Rightarrow> frame list \<Rightarrow> token list \<Rightarrow> json option" where
  "parse_tokens p stk [] = (case p of PDone v \<Rightarrow> Some v | _ \<Rightarrow> None)"
| "parse_tokens p stk (t # ts) =
     (case pstep p stk t of
        None \<Rightarrow> None
      | Some (p', stk') \<Rightarrow> parse_tokens p' stk' ts)"

definition JSON_parse :: "jsstring \<Rightarrow> json option" where
  "JSON_parse text =
     (case tokenize Idle text of None \<Rightarrow> None | Some ts \<Rightarrow> parse_tokens PValue [] ts)"

text \<open>
  \<^verbatim>\<open>JSON.stringify\<close> of a string (QuoteJSONString): the short escapes, \<open>\u00XX\<close> for the
  other control characters, \<open>\uXXXX\<close> for a surrogate that is not part of a pair, and
  every other code unit as it is.
\<close>

definition hex_digit :: "nat \<Rightarrow> nat" where
  "hex_digit d = (if d < 10 then 48 + d else 87 + d)"

definition unicode_escape :: "nat \<Rightarrow> jsstring" where
  "unicode_escape c =
     [92, 117, hex_digit (c div 4096 mod 16), hex_digit (c div 256 mod 16),
      hex_digit (c div 16 mod 16), hex_digit (c mod 16)]"

definition escape_unit :: "nat \<Rightarrow> jsstring" where
  "escape_unit c =
     (if c = 8 then [92, of_char CHR ''b'']
      else if c = 9 then [92, of_char CHR ''t'']
      else if c = 10 then [92, of_char CHR ''n'']
      else if c = 12 then [92, of_char CHR ''f'']
      else if c = 13 then [92, of_char CHR ''r'']
      else if c = 34 then [92, 34]
      else if c = 92 then [92, 92]
      else if c < 32 then unicode_escape c
      else [c])"

definition is_high :: "nat \<Rightarrow> bool" where
  "is_high c = (55296 \<le> c \<and> c \<le> 56319)"

definition is_low :: "nat \<Rightarrow> bool" where
  "is_low c = (56320 \<le> c \<and> c \<le> 57343)"

fun quote_units :: "jsstring \<Rightarrow> jsstring" where
  "quote_units [] = []"
| "quote_units [c] = (if is_high c \<or> is_low c then unicode_escape c else escape_unit c)"
| "quote_units (c # d # cs) =
     (if is_high c \<and> is_low d then c # d # quote_units cs
      else if is_high c \<or> is_low c then unicode_escape c @ quote_units (d # cs)
      else escape_unit c @ quote_units (d # cs))"

definition quote :: "jsstring \<Rightarrow> jsstring" where
  "quote s = 34 # quote_units s @ [34]"

section \<open>The state store\<close>

text \<open>
  A thrown JavaScript error, with the two properties the program reads: its message, a
  string, and its code, which is a number (an HTTP status) or absent (\<open>None\<close>). Every
  comparison the program makes with an absent code is false.
\<close>

record js_error =
  error_message :: jsstring
  code :: "int option"

text \<open>
  The two dedup sets are JavaScript \<^verbatim>\<open>Set\<close>s of strings, kept in insertion order. The
  program itself only ever adds strings to them: fingerprints to \<open>processedVideos\<close> and
  serialised failure records to \<open>failedVideos\<close>.
\<close>

definition Set_add :: "jsstring list \<Rightarrow> jsstring \<Rightarrow> jsstring list" where
  "Set_add s x = (if x \<in> set s then s else s @ [x])"

definition Set_has :: "jsstring list \<Rightarrow> jsstring \<Rightarrow> bool" where
  "Set_has s x = (x \<in> set s)"

text \<open>
  The objects that the save operations serialise into the three state files. \<open>total\<close> is
  \<open>totalProcessed\<close> in the processed file and \<open>totalFailed\<close> in the failed file. A file
  is absent, or holds the object last written to it in full, or is damaged: it holds an
  incomplete text, on which \<^verbatim>\<open>JSON.parse\<close> throws.

  \<^verbatim>\<open>fs.writeFileSync\<close> opens the file, which truncates it, and then writes the text. It
  completes, or it throws before the file was opened and leaves the file as it was, or it
  throws after the file was opened and leaves it damaged.
\<close>

datatype 'a stored = Absent | Damaged | Holds 'a

datatype write_result = Written | Refused | Torn

record offset_data =
  offset :: int
  offset_lastUpdated :: jsstring
  offset_totalProcessed :: nat

record videos_data =
  lastUpdated :: jsstring
  total :: nat
  videos :: "jsstring list"

record poster =
  processedVideos :: "jsstring list"
  failedVideos :: "jsstring list"
  currentOffset :: int
  processedVideosFile :: "videos_data stored"
  offsetFile :: "offset_data stored"
  failedVideosFile :: "videos_data stored"

text \<open>The object built by \<open>addFailedVideo\<close>, and its \<^verbatim>\<open>JSON.stringify\<close>.\<close>

record failure_record =
  videoId :: jsstring
  reason :: jsstring
  timestamp :: jsstring
  error :: "jsstring option"

definition stringify_failure_record :: "failure_record \<Rightarrow> jsstring" where
  "stringify_failure_record r =
     js ''{\"videoId\":'' @ quote (videoId r)
       @ js '',\"reason\":'' @ quote (reason r)
       @ js '',\"timestamp\":'' @ quote (timestamp r)
       @ js '',\"error\":'' @ (case error r of None \<Rightarrow> js ''null'' | Some e \<Rightarrow> quote e)
       @ js ''}''"

text \<open>
  Reading the property \<open>videoId\<close> or \<open>videos\<close> of a parsed value: on \<open>null\<close> the read
  throws a TypeError (\<open>None\<close>); an object yields its own property, the last one when the
  text repeats the key, or \<open>undefined\<close> (\<open>Some None\<close>); a string, a number, a boolean
  or an array has no property of either name.
\<close>

fun read_property :: "json \<Rightarrow> jsstring \<Rightarrow> json option option" where
  "read_property JNull key = None"
| "read_property (JObj ms) key = Some (map_of (rev ms) key)"
| "read_property v key = Some None"

text \<open>
  The body of the \<^verbatim>\<open>try\<close> in \<open>isVideoFailed\<close>: \<open>None\<close> when \<^verbatim>\<open>JSON.parse\<close> or the
  property read throws, otherwise the outcome of \<^verbatim>\<open>record.videoId === videoId\<close> for
  the fingerprint \<open>vid\<close>.
\<close>

definition record_matches :: "jsstring \<Rightarrow> jsstring \<Rightarrow> bool option" where
  "record_matches failedRecord vid =
     (case JSON_parse failedRecord of
        None \<Rightarrow> None
      | Some record \<Rightarrow>
          (case read_property record (js ''videoId'') of
             None \<Rightarrow> None
           | Some v \<Rightarrow> Some (v = Some (JStr vid))))"

fun isVideoFailed :: "jsstring list \<Rightarrow> jsstring \<Rightarrow> bool" where
  "isVideoFailed [] vid = False"
| "isVideoFailed (failedRecord # rest) vid =
     (case record_matches failedRecord vid of
        Some matches \<Rightarrow> if matches then True else isVideoFailed rest vid
      | None \<Rightarrow> if failedRecord = vid then True else isVideoFailed rest vid)"

text \<open>
  The load operations. The file is \<open>None\<close> when it does not exist or cannot be read. The
  loaded \<^verbatim>\<open>Set\<close> holds the parsed values in the order of their first occurrence.
  A \<^verbatim>\<open>Set\<close> identifies values by SameValueZero: strings, booleans and \<open>null\<close> by
  their value, while every parsed array or object is an object of its own. Numbers are
  compared by their text here. \<open>Set_values_has\<close> is \<^verbatim>\<open>has\<close> for a string.
\<close>

fun same_value :: "json \<Rightarrow> json \<Rightarrow> bool" where
  "same_value JNull JNull = True"
| "same_value (JBool a) (JBool b) = (a = b)"
| "same_value (JStr a) (JStr b) = (a = b)"
| "same_value (JNum a) (JNum b) = (a = b)"
| "same_value x y = False"

definition new_Set :: "json list \<Rightarrow> json list" where
  "new_Set xs = foldl (\<lambda>s x. if list_ex (\<lambda>y. same_value y x) s then s else s @ [x]) [] xs"

definition Set_values_has :: "json list \<Rightarrow> jsstring \<Rightarrow> bool" where
  "Set_values_has s x = (JStr x \<in> set s)"

text \<open>Iterating a string yields its code points, each as a string.\<close>

fun code_points :: "jsstring \<Rightarrow> jsstring list" where
  "code_points [] = []"
| "code_points [c] = [[c]]"
| "code_points (c # d # cs) =
     (if is_high c \<and> is_low d then [c, d] # code_points cs
      else [c] # code_points (d # cs))"

text \<open>
  \<^verbatim>\<open>new Set(data.videos || [])\<close> inside the \<^verbatim>\<open>try\<close>: a falsy property gives the empty
  set, an array its elements, a non-empty string its code points; a true boolean, a
  number other than zero or an object is not iterable, \<^verbatim>\<open>new Set\<close> throws, and the
  \<^verbatim>\<open>catch\<close> returns the empty set as well.
\<close>

fun Set_of_videos :: "json option \<Rightarrow> json list" where
  "Set_of_videos (Some (JArr xs)) = new_Set xs"
| "Set_of_videos (Some (JStr s)) = new_Set (map JStr (code_points s))"
| "Set_of_videos v = []"

definition load_videos :: "jsstring option \<Rightarrow> json list" where
  "load_videos file =
     (case file of
        None \<Rightarrow> []
      | Some data \<Rightarrow>
          (case JSON_parse data of
             None \<Rightarrow> []
           | Some (JArr xs) \<Rightarrow> new_Set xs
           | Some parsed \<Rightarrow>
               (case read_property parsed (js ''videos'') of
                  None \<Rightarrow> []
                | Some v \<Rightarrow> Set_of_videos v)))"

text \<open>The two loaders have the same body, each on its own file.\<close>

definition loadProcessedVideos :: "jsstring option \<Rightarrow> json list" where
  "loadProcessedVideos processedVideosFileText = load_videos processedVideosFileText"

definition loadFailedVideos :: "jsstring option \<Rightarrow> json list" where
  "loadFailedVideos failedVideosFileText = load_videos failedVideosFileText"

text \<open>
  \<open>loadOffset\<close> on the offset file: \<^verbatim>\<open>offsetData.offset || 0\<close> for the object it holds,
  and \<open>0\<close> when there is no file or when \<^verbatim>\<open>JSON.parse\<close> throws on a damaged one.
\<close>

definition loadOffset :: "offset_data stored \<Rightarrow> int" where
  "loadOffset file =
     (case file of
        Absent \<Rightarrow> 0
      | Damaged \<Rightarrow> 0
      | Holds offsetData \<Rightarrow> if offset offsetData \<noteq> 0 then offset offsetData else 0)"

section \<open>The outside world\<close>

text \<open>An entry of the context window built by \<open>extractVideoCaption\<close>.\<close>

record context_message =
  ctx_id :: int
  ctx_text :: jsstring
  ctx_senderId :: "big_integer option"
  ctx_date :: int
  position :: jsstring
  timeDiff :: int

text \<open>
  What the collaborators answer during one operation: the clock, how
  \<^verbatim>\<open>fs.writeFileSync\<close> ends, whether \<^verbatim>\<open>getEntity\<close> throws, the messages that
  \<^verbatim>\<open>iterMessages\<close> yields for an \<open>offsetId\<close> (followed by an error if the iteration
  throws), the answer of \<^verbatim>\<open>getMessages\<close> for a list of ids (an absent message is
  \<open>None\<close>), and the text returned by the chat completion for a video and its window
  (\<open>Inl\<close> when the call or reading its answer throws).
\<close>

record world =
  now :: jsstring
  writeFileSync :: write_result
  getEntity :: "js_error option"
  iterMessages :: "int option \<Rightarrow> tg_message list \<times> js_error option"
  getMessages :: "int list \<Rightarrow> js_error + tg_message option list"
  chat_completion :: "tg_message \<Rightarrow> context_message list \<Rightarrow> js_error + jsstring"

datatype call = GetEntity | GetMessages "int list" | ChatCompletion

section \<open>Saving state\<close>

text \<open>
  Each save operation catches what the write throws. In \<open>saveOffset\<close> the assignment to
  \<open>currentOffset\<close> follows the write inside the \<^verbatim>\<open>try\<close>, so it happens only when the
  write completes.
\<close>

definition saveOffset :: "world \<Rightarrow> int \<Rightarrow> poster \<Rightarrow> poster" where
  "saveOffset w newOffset s =
     (case writeFileSync w of
        Written \<Rightarrow>
          s\<lparr>offsetFile := Holds \<lparr>offset = newOffset, offset_lastUpdated = now w,
                                   offset_totalProcessed = length (processedVideos s)\<rparr>,
            currentOffset := newOffset\<rparr>
      | Refused \<Rightarrow> s
      | Torn \<Rightarrow> s\<lparr>offsetFile := Damaged\<rparr>)"

definition saveProcessedVideos :: "world \<Rightarrow> poster \<Rightarrow> poster" where
  "saveProcessedVideos w s =
     (case writeFileSync w of
        Written \<Rightarrow>
          s\<lparr>processedVideosFile := Holds \<lparr>lastUpdated = now w,
                                            total = length (processedVideos s),
                                            videos = processedVideos s\<rparr>\<rparr>
      | Refused \<Rightarrow> s
      | Torn \<Rightarrow> s\<lparr>processedVideosFile := Damaged\<rparr>)"

definition saveFailedVideos :: "world \<Rightarrow> poster \<Rightarrow> poster" where
  "saveFailedVideos w s =
     (case writeFileSync w of
        Written \<Rightarrow>
          s\<lparr>failedVideosFile := Holds \<lparr>lastUpdated = now w,
                                         total = length (failedVideos s),
                                         videos = failedVideos s\<rparr>\<rparr>
      | Refused \<Rightarrow> s
      | Torn \<Rightarrow> s\<lparr>failedVideosFile := Damaged\<rparr>)"

definition addFailedVideo ::
  "world \<Rightarrow> jsstring \<Rightarrow> jsstring \<Rightarrow> js_error option \<Rightarrow> poster \<Rightarrow> poster" where
  "addFailedVideo w vid why err s =
     (let failureRecord = \<lparr>videoId = vid, reason = why, timestamp = now w,
                           error = (case err of None \<Rightarrow> None
                                    | Some e \<Rightarrow> Some (error_message e))\<rparr>
      in saveFailedVideos w
           (s\<lparr>failedVideos :=
                Set_add (failedVideos s) (stringify_failure_record failureRecord)\<rparr>))"

text \<open>The two statements of \<open>run\<close> that record a published video.\<close>

definition markProcessed :: "world \<Rightarrow> jsstring \<Rightarrow> poster \<Rightarrow> poster" where
  "markProcessed w vid s =
     saveProcessedVideos w (s\<lparr>processedVideos := Set_add (processedVideos s) vid\<rparr>)"

section \<open>The batch scanner\<close>

text \<open>
  The body of the \<^verbatim>\<open>for await\<close> loop of \<open>findOldestUnprocessedVideo\<close>, over the messages
  the iterator yields: the first message that is neither processed nor failed.
\<close>

fun scan_page :: "poster \<Rightarrow> tg_message list \<Rightarrow> tg_message option" where
  "scan_page s [] = None"
| "scan_page s (m # ms) =
     (let vid = generateVideoId m
      in if \<not> Set_has (processedVideos s) vid \<and> \<not> isVideoFailed (failedVideos s) vid
         then Some m
         else scan_page s ms)"

definition batchSize :: int where
  "batchSize = 50"

text \<open>The \<open>offsetId\<close> option of the iteration: absent while the offset is not positive.\<close>

definition offsetId :: "poster \<Rightarrow> int option" where
  "offsetId s = (if currentOffset s > 0 then Some (currentOffset s) else None)"

definition findOldestUnprocessedVideo ::
  "world \<Rightarrow> poster \<Rightarrow> (js_error + tg_message option) \<times> poster" where
  "findOldestUnprocessedVideo w s =
     (case getEntity w of
        Some e \<Rightarrow> (Inl e, s)
      | None \<Rightarrow>
          (let (page, failure) = iterMessages w (offsetId s)
           in case scan_page s page of
                Some m \<Rightarrow> (Inr (Some m), s)
              | None \<Rightarrow>
                  (case failure of
                     Some e \<Rightarrow> (Inl e, s)
                   | None \<Rightarrow>
                       (let newOffset = currentOffset s + batchSize
                        in (Inr None, saveOffset w newOffset s)))))"

section \<open>The failure classifier\<close>

text \<open>
  The chain of conditions in the \<^verbatim>\<open>catch\<close> block of \<open>run\<close> that computes
  \<open>failureReason\<close> from the error thrown while a video was processed.
\<close>

definition code_is :: "js_error \<Rightarrow> int \<Rightarrow> bool" where
  "code_is e n = (code e = Some n)"

definition code_between :: "js_error \<Rightarrow> int \<Rightarrow> int \<Rightarrow> bool" where
  "code_between e lo hi = (case code e of None \<Rightarrow> False | Some n \<Rightarrow> lo \<le> n \<and> n < hi)"

definition code_at_least :: "js_error \<Rightarrow> int \<Rightarrow> bool" where
  "code_at_least e lo = (case code e of None \<Rightarrow> False | Some n \<Rightarrow> lo \<le> n)"

definition code_text :: "js_error \<Rightarrow> jsstring" where
  "code_text e = (case code e of None \<Rightarrow> js ''undefined'' | Some n \<Rightarrow> show_int n)"

definition failureReason :: "js_error \<Rightarrow> jsstring" where
  "failureReason uploadError =
     (if str_includes (error_message uploadError) (js ''video longer than'')
      then js ''Video too long (>2 minutes)''
      else if str_includes (error_message uploadError) (js ''Forbidden'')
              \<or> code_is uploadError 403
      then js ''Twitter API forbidden (video restrictions)''
      else if str_includes (error_message uploadError) (js ''too large'')
              \<or> str_includes (error_message uploadError) (js ''file size'')
      then js ''Video file too large''
      else if str_includes (error_message uploadError) (js ''format'')
              \<or> str_includes (error_message uploadError) (js ''codec'')
      then js ''Unsupported video format''
      else if code_is uploadError 429
      then js ''Rate limit exceeded''
      else if code_between uploadError 400 500
      then js ''Client error: '' @ code_text uploadError
      else if code_at_least uploadError 500
      then js ''Server error: '' @ code_text uploadError
      else js ''Unknown upload error'')"

text \<open>The \<^verbatim>\<open>catch\<close> block itself: nothing is recorded when no video had been found.\<close>

definition run_catch :: "world \<Rightarrow> tg_message option \<Rightarrow> js_error \<Rightarrow> poster \<Rightarrow> poster" where
  "run_catch w videoMessage uploadError s =
     (case videoMessage of
        None \<Rightarrow> s
      | Some m \<Rightarrow>
          addFailedVideo w (generateVideoId m) (failureReason uploadError)
            (Some uploadError) s)"

text \<open>
  The taxonomy of the specification. Each category has the condition under which the
  source selects it and the reason text the source stores for it; a classifier is then
  determined by the order in which the categories are tried.
\<close>

datatype category =
    DurationExceeded | SizeExceeded | ForbiddenPermission | UnsupportedFormat
  | RateLimited | ClientError | ServerError | Unknown

fun triggers :: "category \<Rightarrow> js_error \<Rightarrow> bool" where
  "triggers DurationExceeded e = str_includes (error_message e) (js ''video longer than'')"
| "triggers SizeExceeded e =
     (str_includes (error_message e) (js ''too large'')
      \<or> str_includes (error_message e) (js ''file size''))"
| "triggers ForbiddenPermission e =
     (str_includes (error_message e) (js ''Forbidden'') \<or> code_is e 403)"
| "triggers UnsupportedFormat e =
     (str_includes (error_message e) (js ''format'')
      \<or> str_includes (error_message e) (js ''codec''))"
| "triggers RateLimited e = code_is e 429"
| "triggers ClientError e = code_between e 400 500"
| "triggers ServerError e = code_at_least e 500"
| "triggers Unknown e = True"

fun reason_text :: "category \<Rightarrow> js_error \<Rightarrow> jsstring" where
  "reason_text DurationExceeded e = js ''Video too long (>2 minutes)''"
| "reason_text SizeExceeded e = js ''Video file too large''"
| "reason_text ForbiddenPermission e = js ''Twitter API forbidden (video restrictions)''"
| "reason_text UnsupportedFormat e = js ''Unsupported video format''"
| "reason_text RateLimited e = js ''Rate limit exceeded''"
| "reason_text ClientError e = js ''Client error: '' @ code_text e"
| "reason_text ServerError e = js ''Server error: '' @ code_text e"
| "reason_text Unknown e = js ''Unknown upload error''"

fun first_matching :: "category list \<Rightarrow> js_error \<Rightarrow> category" where
  "first_matching [] e = Unknown"
| "first_matching (c # cs) e = (if triggers c e then c else first_matching cs e)"

text \<open>The priority order as the specification lists it.\<close>

definition spec_priority :: "category list" where
  "spec_priority =
     [DurationExceeded, SizeExceeded, ForbiddenPermission, UnsupportedFormat,
      RateLimited, ClientError, ServerError, Unknown]"

text \<open>The priority order of the source: the permission test comes before the size test.\<close>

definition source_priority :: "category list" where
  "source_priority =
     [DurationExceeded, ForbiddenPermission, SizeExceeded, UnsupportedFormat,
      RateLimited, ClientError, ServerError, Unknown]"

section \<open>The caption resolver\<close>

text \<open>\<^verbatim>\<open>msg.message && msg.message.trim()\<close> as a condition.\<close>

definition has_text :: "jsstring option \<Rightarrow> bool" where
  "has_text t = (case t of None \<Rightarrow> False | Some x \<Rightarrow> x \<noteq> [] \<and> trim x \<noteq> [])"

definition message_text :: "jsstring option \<Rightarrow> jsstring" where
  "message_text t = (case t of None \<Rightarrow> [] | Some x \<Rightarrow> trim x)"

text \<open>
  The window built from the answer of \<^verbatim>\<open>getMessages\<close>: the \<^verbatim>\<open>filter\<close>, the
  \<^verbatim>\<open>map\<close> and the (stable) \<^verbatim>\<open>sort\<close> by message id.
\<close>

definition keep_context :: "tg_message \<Rightarrow> tg_message option \<Rightarrow> bool" where
  "keep_context videoMessage msg =
     (case msg of
        None \<Rightarrow> False
      | Some x \<Rightarrow> msg_id x \<noteq> msg_id videoMessage \<and> has_text (message x))"

definition to_context :: "tg_message \<Rightarrow> tg_message \<Rightarrow> context_message" where
  "to_context videoMessage msg =
     \<lparr>ctx_id = msg_id msg,
      ctx_text = message_text (message msg),
      ctx_senderId = senderId msg,
      ctx_date = date msg,
      position = (if msg_id msg < msg_id videoMessage then js ''before'' else js ''after''),
      timeDiff = \<bar>date videoMessage - date msg\<bar>\<rparr>"

definition contextMessages :: "tg_message \<Rightarrow> tg_message option list \<Rightarrow> context_message list" where
  "contextMessages videoMessage surroundingMessages =
     sort_key ctx_id
       (map (to_context videoMessage)
          (concat (map (\<lambda>msg. case msg of None \<Rightarrow> [] | Some x \<Rightarrow> [x])
             (filter (keep_context videoMessage) surroundingMessages))))"

text \<open>The clean-up of the answer: surrounding quotes of one kind are removed.\<close>

definition starts_with :: "jsstring \<Rightarrow> nat \<Rightarrow> bool" where
  "starts_with s c = (case s of [] \<Rightarrow> False | x # xs \<Rightarrow> x = c)"

definition ends_with :: "jsstring \<Rightarrow> nat \<Rightarrow> bool" where
  "ends_with s c = (case rev s of [] \<Rightarrow> False | x # xs \<Rightarrow> x = c)"

definition strip_quotes :: "jsstring \<Rightarrow> jsstring" where
  "strip_quotes s =
     (if (starts_with s 34 \<and> ends_with s 34) \<or> (starts_with s 39 \<and> ends_with s 39)
      then trim (butlast (tl s))
      else s)"

definition matches_window :: "jsstring \<Rightarrow> context_message \<Rightarrow> bool" where
  "matches_window aiResponse msg =
     (ctx_text msg = aiResponse
      \<or> str_includes (ctx_text msg) aiResponse
      \<or> str_includes aiResponse (ctx_text msg))"

definition fallbackMessage :: "tg_message \<Rightarrow> context_message list \<Rightarrow> context_message option" where
  "fallbackMessage videoMessage ctx =
     find (\<lambda>msg. strict_equals (ctx_senderId msg) (senderId videoMessage) \<and> timeDiff msg < 300)
       ctx"

definition fallback_caption :: "tg_message \<Rightarrow> context_message list \<Rightarrow> jsstring" where
  "fallback_caption videoMessage ctx =
     (case fallbackMessage videoMessage ctx of None \<Rightarrow> [] | Some msg \<Rightarrow> ctx_text msg)"

text \<open>
  \<^verbatim>\<open>new Date(videoMessage.date * 1000).toISOString()\<close> throws a RangeError outside the
  range of time values; this happens while the prompt is built, before the call.
\<close>

definition valid_date :: "int \<Rightarrow> bool" where
  "valid_date d = (\<bar>d * 1000\<bar> \<le> 8640000000000000)"

text \<open>
  \<open>findRelevantCaption\<close> and \<open>extractVideoCaption\<close> return the caption together with the
  calls made to the collaborators, in order.
\<close>

definition findRelevantCaption ::
  "world \<Rightarrow> tg_message \<Rightarrow> context_message list \<Rightarrow> jsstring \<times> call list" where
  "findRelevantCaption w videoMessage ctx =
     (if ctx = [] then ([], [])
      else if \<not> valid_date (date videoMessage) then (fallback_caption videoMessage ctx, [])
      else
        (case chat_completion w videoMessage ctx of
           Inl e \<Rightarrow> (fallback_caption videoMessage ctx, [ChatCompletion])
         | Inr content \<Rightarrow>
             (let aiResponse = strip_quotes (trim content)
              in if aiResponse = js ''NONE'' \<or> aiResponse = [] then ([], [ChatCompletion])
                 else
                   (case find (matches_window aiResponse) ctx of
                      Some matchingMessage \<Rightarrow> (aiResponse, [ChatCompletion])
                    | None \<Rightarrow> (fallback_caption videoMessage ctx, [ChatCompletion])))))"

definition messageIds :: "tg_message \<Rightarrow> int list" where
  "messageIds videoMessage =
     [msg_id videoMessage - 2, msg_id videoMessage - 1, msg_id videoMessage,
      msg_id videoMessage + 1, msg_id videoMessage + 2]"

definition extractVideoCaption :: "world \<Rightarrow> tg_message \<Rightarrow> jsstring \<times> call list" where
  "extractVideoCaption w videoMessage =
     (if has_text (message videoMessage) then (message_text (message videoMessage), [])
      else
        (case getEntity w of
           Some e \<Rightarrow> ([], [GetEntity])
         | None \<Rightarrow>
             (case getMessages w (messageIds videoMessage) of
                Inl e \<Rightarrow> ([], [GetEntity, GetMessages (messageIds videoMessage)])
              | Inr surroundingMessages \<Rightarrow>
                  (let ctx = contextMessages videoMessage surroundingMessages
                   in if ctx = []
                      then ([], [GetEntity, GetMessages (messageIds videoMessage)])
                      else
                        (let (relevantCaption, calls) = findRelevantCaption w videoMessage ctx
                         in (if relevantCaption \<noteq> [] then relevantCaption else [],
                             [GetEntity, GetMessages (messageIds videoMessage)] @ calls))))))"

section \<open>Notions used to state the properties\<close>

text \<open>The parsed form of a serialised failure record.\<close>

definition failure_record_json :: "failure_record \<Rightarrow> json" where
  "failure_record_json r =
     JObj [(js ''videoId'', JStr (videoId r)), (js ''reason'', JStr (reason r)),
           (js ''timestamp'', JStr (timestamp r)),
           (js ''error'', case error r of None \<Rightarrow> JNull | Some e \<Rightarrow> JStr e)]"

text \<open>
  Membership of a fingerprint in the failed set under its two encodings: the bare
  fingerprint, or an entry that is the JSON text of an object whose \<open>videoId\<close> is the
  fingerprint.
\<close>

definition has_videoId :: "jsstring \<Rightarrow> jsstring \<Rightarrow> bool" where
  "has_videoId e fp =
     (case JSON_parse e of
        Some (JObj ms) \<Rightarrow> map_of (rev ms) (js ''videoId'') = Some (JStr fp)
      | _ \<Rightarrow> False)"

definition in_FailedSet :: "jsstring list \<Rightarrow> jsstring \<Rightarrow> bool" where
  "in_FailedSet failed fp = (fp \<in> set failed \<or> (\<exists>e\<in>set failed. has_videoId e fp))"

text \<open>The parts of a message whose absence the fingerprint replaces by a sentinel.\<close>

definition missing_peer :: "tg_message \<Rightarrow> bool" where
  "missing_peer m =
     (case peerId m of
        None \<Rightarrow> True
      | Some p \<Rightarrow> channelId p = None \<and> chatId p = None \<and> userId p = None)"

definition missing_size :: "tg_message \<Rightarrow> bool" where
  "missing_size m = (case video m of None \<Rightarrow> True | Some v \<Rightarrow> video_size v = None)"

definition missing_duration :: "tg_message \<Rightarrow> bool" where
  "missing_duration m = (case video m of None \<Rightarrow> True | Some v \<Rightarrow> video_duration v = None)"

definition falsy :: "int option \<Rightarrow> bool" where
  "falsy a = (\<not> truthy a)"

text \<open>
  A window entry that the fallback heuristic of the source picks: its sender object is the
  sender object of the video (or both are \<^verbatim>\<open>undefined\<close>) and it is less than 300
  seconds away. The specification asks for an entry of the same sender, which is equality
  of the numbers.
\<close>

definition eligible :: "tg_message \<Rightarrow> context_message \<Rightarrow> bool" where
  "eligible videoMessage c =
     (strict_equals (ctx_senderId c) (senderId videoMessage) \<and> timeDiff c < 300)"

definition same_sender :: "big_integer option \<Rightarrow> big_integer option \<Rightarrow> bool" where
  "same_sender a b = (map_option big_value a = map_option big_value b)"

text \<open>
  The two ways in which the ranking step fails: something in its \<^verbatim>\<open>try\<close> block throws
  (building the prompt, the call, reading the answer), or its cleaned answer is neither
  empty nor the sentinel and matches no window entry.
\<close>

definition failed_validation :: "context_message list \<Rightarrow> jsstring \<Rightarrow> bool" where
  "failed_validation ctx content =
     (let aiResponse = strip_quotes (trim content)
      in aiResponse \<noteq> js ''NONE'' \<and> aiResponse \<noteq> []
         \<and> (\<forall>c\<in>set ctx. \<not> matches_window aiResponse c))"

definition ranking_failed :: "world \<Rightarrow> tg_message \<Rightarrow> context_message list \<Rightarrow> bool" where
  "ranking_failed w videoMessage ctx =
     (\<not> valid_date (date videoMessage)
      \<or> (case chat_completion w videoMessage ctx of
            Inl e \<Rightarrow> True
          | Inr content \<Rightarrow> failed_validation ctx content))"

text \<open>
  The caption property as the specification words it: a caption that is not empty is
  the text of the video message itself or the text of an entry of the window.
\<close>

definition own_or_window_text :: "world \<Rightarrow> tg_message \<Rightarrow> bool" where
  "own_or_window_text w m =
     (let r = fst (extractVideoCaption w m)
      in r = [] \<or> message m = Some r
         \<or> (case getMessages w (messageIds m) of
               Inl e \<Rightarrow> False
             | Inr surroundingMessages \<Rightarrow>
                 r \<in> set (map ctx_text (contextMessages m surroundingMessages))))"

text \<open>A scanned message is resolved when its fingerprint is processed or failed.\<close>

definition resolved :: "poster \<Rightarrow> tg_message \<Rightarrow> bool" where
  "resolved s m =
     (Set_has (processedVideos s) (generateVideoId m)
      \<or> isVideoFailed (failedVideos s) (generateVideoId m))"

text \<open>
  The offset that the next run would load, and the agreement between it and the offset
  in memory. The constructor establishes the agreement: it sets \<open>currentOffset\<close> to the
  result of \<open>loadOffset\<close>.
\<close>

definition persisted_offset :: "poster \<Rightarrow> int" where
  "persisted_offset s = loadOffset (offsetFile s)"

definition offset_in_sync :: "poster \<Rightarrow> bool" where
  "offset_in_sync s = (currentOffset s = persisted_offset s)"

text \<open>
  The operations by which \<open>run\<close> changes the state, each in the world it meets, and a
  sequence of them.
\<close>

datatype operation =
    FindOldestUnprocessedVideo
  | RunCatch "tg_message option" js_error
  | MarkProcessed jsstring

text \<open>
  The step does not cut off a write of the offset file after the file was opened. Only
  the scanner writes the offset file.
\<close>

fun untorn :: "world \<times> operation \<Rightarrow> bool" where
  "untorn (w, FindOldestUnprocessedVideo) = (writeFileSync w \<noteq> Torn)"
| "untorn (w, RunCatch videoMessage uploadError) = True"
| "untorn (w, MarkProcessed vid) = True"

fun perform :: "world \<times> operation \<Rightarrow> poster \<Rightarrow> poster" where
  "perform (w, FindOldestUnprocessedVideo) s = snd (findOldestUnprocessedVideo w s)"
| "perform (w, RunCatch videoMessage uploadError) s = run_catch w videoMessage uploadError s"
| "perform (w, MarkProcessed vid) s = markProcessed w vid s"

fun perform_all :: "(world \<times> operation) list \<Rightarrow> poster \<Rightarrow> poster" where
  "perform_all [] s = s"
| "perform_all (step # steps) s = perform_all steps (perform step s)"

text \<open>The record that the \<^verbatim>\<open>catch\<close> block stores for a video that is too long.\<close>

definition duration_record :: "world \<Rightarrow> tg_message \<Rightarrow> js_error \<Rightarrow> failure_record" where
  "duration_record w m e =
     \<lparr>videoId = generateVideoId m, reason = js ''Video too long (>2 minutes)'',
      timestamp = now w, error = Some (error_message e)\<rparr>"

text \<open>Tokenizer states used in the proofs about \<open>tokenize\<close>.\<close>

fun in_string :: "lexst \<Rightarrow> bool" where
  "in_string (InStr acc) = True"
| "in_string (InEsc acc) = True"
| "in_string (InHex acc ds) = True"
| "in_string st = False"

fun lit_ok :: "lexst \<Rightarrow> bool" where
  "lit_ok (InLit rest tok) = (95 \<notin> set rest)"
| "lit_ok st = True"

section \<open>Example inputs\<close>

definition bare_message :: tg_message where
  "bare_message =
     \<lparr>peerId = None, msg_id = 5, date = 1000, video = None, message = None,
      senderId = None\<rparr>"

definition zero_video_message :: tg_message where
  "zero_video_message =
     bare_message\<lparr>video := Some \<lparr>video_size = Some 0, video_duration = Some 0\<rparr>\<rparr>"

text \<open>A video without text and the message before it, both without sender object.\<close>

definition video_without_text :: tg_message where
  "video_without_text =
     \<lparr>peerId = None, msg_id = 10, date = 1000, video = None, message = None,
      senderId = None\<rparr>"

definition neighbour :: tg_message where
  "neighbour =
     \<lparr>peerId = None, msg_id = 9, date = 990, video = None,
      message = Some (js ''look at this''), senderId = None\<rparr>"

text \<open>
  The same two messages sent by the user 42: each message has a sender object of its own,
  and both objects hold 42.
\<close>

definition video_of_sender :: tg_message where
  "video_of_sender = video_without_text\<lparr>senderId := Some \<lparr>object_id = 1, big_value = 42\<rparr>\<rparr>"

definition neighbour_of_sender :: tg_message where
  "neighbour_of_sender = neighbour\<lparr>senderId := Some \<lparr>object_id = 2, big_value = 42\<rparr>\<rparr>"

text \<open>A world in which the chat completion throws, and one in which it answers \<open>look\<close>.\<close>

definition quiet_world :: world where
  "quiet_world =
     \<lparr>now = js ''2024-01-01T00:00:00.000Z'', writeFileSync = Written, getEntity = None,
      iterMessages = (\<lambda>offsetId. ([], None)),
      getMessages = (\<lambda>ids. Inr [None, Some neighbour, Some video_without_text, None, None]),
      chat_completion =
        (\<lambda>videoMessage ctx. Inl \<lparr>error_message = js ''timeout'', code = None\<rparr>)\<rparr>"

definition inventing_world :: world where
  "inventing_world = quiet_world\<lparr>chat_completion := (\<lambda>videoMessage ctx. Inr (js ''look''))\<rparr>"

text \<open>The world of \<open>quiet_world\<close> around the two messages of the user 42.\<close>

definition sender_world :: world where
  "sender_world =
     quiet_world\<lparr>getMessages :=
       (\<lambda>ids. Inr [None, Some neighbour_of_sender, Some video_of_sender, None, None])\<rparr>"

text \<open>A failed set that mixes the encodings, around the fingerprint of \<open>bare_message\<close>.\<close>

definition example_record :: failure_record where
  "example_record =
     \<lparr>videoId = generateVideoId bare_message, reason = js ''Video file too large'',
      timestamp = js ''2024-01-01T00:00:00.000Z'', error = None\<rparr>"

definition example_failed :: "jsstring list" where
  "example_failed =
     [js ''{\"videoId\":\"7_7_7_7_7\",\"reason\":\"Unknown upload error\"}'',
      generateVideoId bare_message,
      stringify_failure_record example_record]"

text \<open>
  A page of five videos: the first is processed, the second failed with a structured
  record, the third failed with a legacy entry, the last two are not resolved.
\<close>

definition page_message :: "int \<Rightarrow> tg_message" where
  "page_message i = bare_message\<lparr>msg_id := i\<rparr>"

definition scan_record :: failure_record where
  "scan_record =
     \<lparr>videoId = generateVideoId (page_message 6), reason = js ''Rate limit exceeded'',
      timestamp = js ''2024-01-01T00:00:00.000Z'', error = Some (js ''Too Many Requests'')\<rparr>"

definition scan_state :: poster where
  "scan_state =
     \<lparr>processedVideos = [generateVideoId (page_message 5)],
      failedVideos = [stringify_failure_record scan_record, generateVideoId (page_message 7)],
      currentOffset = 0, processedVideosFile = Absent, offsetFile = Absent,
      failedVideosFile = Absent\<rparr>"

definition scan_page_example :: "tg_message list" where
  "scan_page_example =
     [page_message 5, page_message 6, page_message 7, page_message 8, page_message 9]"

definition scan_world :: world where
  "scan_world = quiet_world\<lparr>iterMessages := (\<lambda>offsetId. (scan_page_example, None))\<rparr>"

text \<open>
  A page of fifty videos that are all processed, in a world where the offset file is
  written and in one where the write is cut off after the file was opened.
\<close>

definition full_page :: "tg_message list" where
  "full_page = map page_message [101..150]"

definition full_state :: poster where
  "full_state =
     \<lparr>processedVideos = map generateVideoId full_page, failedVideos = [],
      currentOffset = 100, processedVideosFile = Absent,
      offsetFile = Holds \<lparr>offset = 100, offset_lastUpdated = js ''2024-01-01T00:00:00.000Z'',
                           offset_totalProcessed = 50\<rparr>,
      failedVideosFile = Absent\<rparr>"

definition full_disk_world :: world where
  "full_disk_world =
     quiet_world\<lparr>writeFileSync := Torn, iterMessages := (\<lambda>offsetId. (full_page, None))\<rparr>"

definition healthy_world :: world where
  "healthy_world = quiet_world\<lparr>iterMessages := (\<lambda>offsetId. (full_page, None))\<rparr>"

text \<open>Two publish errors.\<close>

definition forbidden_large_error :: js_error where
  "forbidden_large_error = \<lparr>error_message = js ''Forbidden: file too large'', code = None\<rparr>"

definition too_long_error :: js_error where
  "too_long_error =
     \<lparr>error_message = js ''Your video longer than 140 seconds'', code = Some 400\<rparr>"

text \<open>A legacy file and a structured file with the same identifiers.\<close>

definition legacy_text :: jsstring where
  "legacy_text = js ''[\"a_1\", \"b_2\", \"a_1\"]''"

definition structured_text :: jsstring where
  "structured_text =
     js ''{\"lastUpdated\": \"2024-01-01\", \"totalProcessed\": 2, \"videos\": [\"a_1\", \"b_2\", \"a_1\"]}''"

section \<open>The tokenizer on fingerprints and on quoted strings\<close>

lemma lex_step_in_string:
  "in_string st \<Longrightarrow> c \<noteq> 34 \<Longrightarrow> lex_step st c = Some (ts, st') \<Longrightarrow> in_string st'"
  by (cases st) (auto simp: esc_step_def split: if_splits option.splits)

lemma lex_in_string_unterminated:
  "in_string st \<Longrightarrow> 34 \<notin> set cs \<Longrightarrow> tokenize st cs = None"
proof (induction cs arbitrary: st)
  case Nil
  then show ?case by (cases st) auto
next
  case (Cons c cs)
  show ?case
  proof (cases "lex_step st c")
    case None
    then show ?thesis by simp
  next
    case (Some r)
    obtain ts st' where r: "r = (ts, st')" by (cases r)
    from Cons.prems Some r have "in_string st'"
      using lex_step_in_string [of st c ts st'] by auto
    with Cons.IH [of st'] Cons.prems have "tokenize st' cs = None" by auto
    with Some r show ?thesis by simp
  qed
qed
lemma idle_step_lit_ok: "idle_step c = Some (ts, st') \<Longrightarrow> lit_ok st'"
  by (auto simp: idle_step_def split: if_splits)

lemma lex_step_lit_ok: "lit_ok st \<Longrightarrow> lex_step st c = Some (ts, st') \<Longrightarrow> lit_ok st'"
  by (cases st)
     (auto simp: esc_step_def dest: idle_step_lit_ok split: if_splits option.splits list.splits)

lemma idle_step_underscore: "idle_step 95 = None"
  by (simp add: idle_step_def is_json_ws_def is_digit_def)

lemma num_step_underscore: "num_step ns 95 = None"
  by (cases ns) (auto simp: is_digit_def is_exp_def)

lemma lex_step_underscore:
  "lit_ok st \<Longrightarrow> lex_step st 95 = Some (ts, st') \<Longrightarrow> in_string st'"
  by (cases st) (auto simp: esc_step_def idle_step_underscore num_step_underscore hex_value_def
      split: if_splits option.splits list.splits)

lemma lex_underscore:
  assumes "34 \<notin> set cs" and "lit_ok st"
  shows "tokenize st (95 # cs) = None"
proof (cases "lex_step st 95")
  case None
  then show ?thesis by simp
next
  case (Some r)
  obtain ts st' where r: "r = (ts, st')" by (cases r)
  with Some assms(2) have "in_string st'" using lex_step_underscore by blast
  with assms(1) have "tokenize st' cs = None" by (simp add: lex_in_string_unterminated)
  with Some r show ?thesis by simp
qed

lemma lex_append_None:
  "(\<And>st. lit_ok st \<Longrightarrow> tokenize st ys = None) \<Longrightarrow> lit_ok st \<Longrightarrow> tokenize st (xs @ ys) = None"
proof (induction xs arbitrary: st)
  case Nil
  then show ?case by simp
next
  case (Cons c xs)
  show ?case
  proof (cases "lex_step st c")
    case None
    then show ?thesis by simp
  next
    case (Some r)
    obtain ts st' where r: "r = (ts, st')" by (cases r)
    with Some Cons.prems(2) have "lit_ok st'" using lex_step_lit_ok by blast
    with Cons.IH [of st'] Cons.prems(1) have "tokenize st' (xs @ ys) = None" by blast
    with Some r show ?thesis by simp
  qed
qed

lemma JSON_parse_underscore_tail:
  assumes "34 \<notin> set cs"
  shows "JSON_parse (xs @ 95 # cs) = None"
proof -
  have "tokenize Idle (xs @ 95 # cs) = None"
    using assms by (intro lex_append_None lex_underscore) simp_all
  then show ?thesis by (simp add: JSON_parse_def)
qed

lemma show_nat_digits: "c \<in> set (show_nat n) \<Longrightarrow> 48 \<le> c \<and> c \<le> 57"
proof (induction n arbitrary: c rule: show_nat.induct)
  case (1 n)
  show ?case
  proof (cases "n < 10")
    case True
    with "1.prems" show ?thesis by (simp add: show_nat.simps [of n])
  next
    case False
    with "1.prems" have "c \<in> set (show_nat (n div 10)) \<or> c = 48 + n mod 10"
      by (auto simp: show_nat.simps [of n])
    moreover have "n mod 10 < 10" by simp
    ultimately show ?thesis using "1.IH" [OF False, of c] by auto
  qed
qed

lemma show_int_no_quote: "34 \<notin> set (show_int i)"
proof
  assume "34 \<in> set (show_int i)"
  then have "34 \<in> set (show_nat (nat (- i))) \<or> 34 \<in> set (show_nat (nat i))"
    by (auto simp: show_int_def split: if_splits)
  then show False using show_nat_digits [of 34] by auto
qed

lemma or_default_no_quote: "34 \<notin> set (or_default a (js ''0''))"
  by (simp add: or_default_def show_int_no_quote split: option.splits)

lemma JSON_parse_generateVideoId: "JSON_parse (generateVideoId m) = None"
proof -
  obtain xs where "generateVideoId m = xs @ 95 # or_default (opt_chain (video m) video_duration) (js ''0'')"
    by (simp add: generateVideoId_def Let_def)
  moreover have "34 \<notin> set (or_default (opt_chain (video m) video_duration) (js ''0''))"
    by (rule or_default_no_quote)
  ultimately show ?thesis
    using JSON_parse_underscore_tail by metis
qed

declare tokenize.simps [simp del]

lemma map_option_append_Nil: "map_option ((@) []) x = x"
  by (cases x) simp_all

lemma map_option_append_single: "map_option ((@) [t]) x = map_option ((#) t) x"
  by (cases x) simp_all

lemma lex_silent:
  "lex_step st c = Some ([], st') \<Longrightarrow> tokenize st (c # cs) = tokenize st' cs"
  by (simp add: tokenize.simps map_option_append_Nil)

lemma hex4_digits:
  assumes "c < 65536"
  shows "hex4 [c div 4096 mod 16, c div 256 mod 16, c div 16 mod 16, c mod 16] = c"
proof -
  define q1 where "q1 = c div 16"
  define q2 where "q2 = q1 div 16"
  define q3 where "q3 = q2 div 16"
  have d2: "c div 256 = q2"
    using div_mult2_eq [of c 16 16] by (simp add: q1_def q2_def)
  have d3: "c div 4096 = q3"
    using div_mult2_eq [of c 256 16] d2 by (simp add: q3_def)
  have "q3 < 16" using assms d3 by (simp add: less_mult_imp_div_less)
  then have m3: "q3 mod 16 = q3" by simp
  have e1: "c = 16 * q1 + c mod 16" by (simp add: q1_def)
  have e2: "q1 = 16 * q2 + q1 mod 16" by (simp add: q2_def)
  have e3: "q2 = 16 * q3 + q2 mod 16" by (simp add: q3_def)
  have "hex4 [q3 mod 16, q2 mod 16, q1 mod 16, c mod 16]
      = 16 * (16 * (16 * q3 + q2 mod 16) + q1 mod 16) + c mod 16"
    by (simp add: hex4_def m3)
  also have "\<dots> = c" using e1 e2 e3 by presburger
  finally show ?thesis by (simp add: d2 d3 q1_def)
qed

lemma lex_InStr_plain:
  "32 \<le> c \<Longrightarrow> c \<noteq> 34 \<Longrightarrow> c \<noteq> 92 \<Longrightarrow> tokenize (InStr acc) (c # cs) = tokenize (InStr (acc @ [c])) cs"
  by (rule lex_silent) simp

lemma hex_value_hex_digit: "d < 16 \<Longrightarrow> hex_value (hex_digit d) = Some d"
  by (auto simp: hex_value_def hex_digit_def)

lemma lex_unicode_escape:
  assumes "c < 65536"
  shows "tokenize (InStr acc) (unicode_escape c @ cs) = tokenize (InStr (acc @ [c])) cs"
proof -
  let ?a = "c div 4096 mod 16" and ?b = "c div 256 mod 16" and ?c = "c div 16 mod 16"
    and ?d = "c mod 16"
  have "tokenize (InStr acc) (unicode_escape c @ cs)
      = tokenize (InStr acc) (92 # 117 # hex_digit ?a # hex_digit ?b # hex_digit ?c # hex_digit ?d # cs)"
    by (simp add: unicode_escape_def)
  also have "\<dots> = tokenize (InEsc acc) (117 # hex_digit ?a # hex_digit ?b # hex_digit ?c # hex_digit ?d # cs)"
    by (rule lex_silent) simp
  also have "\<dots> = tokenize (InHex acc []) (hex_digit ?a # hex_digit ?b # hex_digit ?c # hex_digit ?d # cs)"
    by (rule lex_silent) (simp add: esc_step_def)
  also have "\<dots> = tokenize (InHex acc [?a]) (hex_digit ?b # hex_digit ?c # hex_digit ?d # cs)"
    by (rule lex_silent) (simp add: hex_value_hex_digit)
  also have "\<dots> = tokenize (InHex acc [?a, ?b]) (hex_digit ?c # hex_digit ?d # cs)"
    by (rule lex_silent) (simp add: hex_value_hex_digit)
  also have "\<dots> = tokenize (InHex acc [?a, ?b, ?c]) (hex_digit ?d # cs)"
    by (rule lex_silent) (simp add: hex_value_hex_digit)
  also have "\<dots> = tokenize (InStr (acc @ [hex4 [?a, ?b, ?c, ?d]])) cs"
    by (rule lex_silent) (simp add: hex_value_hex_digit)
  finally show ?thesis using assms by (simp only: hex4_digits)
qed

lemma lex_short_escape:
  "esc_step acc e = Some ([], InStr (acc @ [c])) \<Longrightarrow>
   tokenize (InStr acc) (92 # e # cs) = tokenize (InStr (acc @ [c])) cs"
proof -
  assume a: "esc_step acc e = Some ([], InStr (acc @ [c]))"
  have "tokenize (InStr acc) (92 # e # cs) = tokenize (InEsc acc) (e # cs)"
    by (rule lex_silent) simp
  also have "\<dots> = tokenize (InStr (acc @ [c])) cs"
    by (rule lex_silent) (simp add: a)
  finally show ?thesis .
qed

lemma lex_escape_unit:
  "tokenize (InStr acc) (escape_unit c @ cs) = tokenize (InStr (acc @ [c])) cs"
proof -
  consider "c = 8" | "c = 9" | "c = 10" | "c = 12" | "c = 13" | "c = 34" | "c = 92"
    | "c < 32" "c \<noteq> 8" "c \<noteq> 9" "c \<noteq> 10" "c \<noteq> 12" "c \<noteq> 13"
    | "32 \<le> c" "c \<noteq> 34" "c \<noteq> 92"
    by linarith
  then show ?thesis
  proof cases
    case 8
    then have "escape_unit c = unicode_escape c" by (simp add: escape_unit_def)
    moreover have "c < 65536" using 8 by simp
    ultimately show ?thesis by (simp only: lex_unicode_escape)
  next
    case 9
    then have "escape_unit c = [c]" by (simp add: escape_unit_def)
    moreover have "tokenize (InStr acc) (c # cs) = tokenize (InStr (acc @ [c])) cs"
      using 9 by (intro lex_InStr_plain)
    ultimately show ?thesis by (simp only: append_Cons append_Nil)
  qed (simp_all add: escape_unit_def lex_short_escape esc_step_def)
qed

lemma surrogate_small: "is_high c \<or> is_low c \<Longrightarrow> c < 65536"
  by (auto simp: is_high_def is_low_def)

lemma lex_InStr_close:
  "tokenize (InStr acc) (34 # rest) = map_option (Cons (TString acc)) (tokenize Idle rest)"
  by (simp add: tokenize.simps map_option_append_single)

lemma lex_quote_units:
  "tokenize (InStr acc) (quote_units s @ 34 # rest) = map_option (Cons (TString (acc @ s))) (tokenize Idle rest)"
proof (induction s arbitrary: acc rule: quote_units.induct)
  case 1
  show ?case by (simp add: lex_InStr_close)
next
  case (2 c)
  have "tokenize (InStr acc) (quote_units [c] @ 34 # rest) = tokenize (InStr (acc @ [c])) (34 # rest)"
  proof (cases "is_high c \<or> is_low c")
    case True
    then have "tokenize (InStr acc) (unicode_escape c @ 34 # rest) = tokenize (InStr (acc @ [c])) (34 # rest)"
      by (intro lex_unicode_escape surrogate_small)
    with True show ?thesis by simp
  next
    case False
    have "tokenize (InStr acc) (escape_unit c @ 34 # rest) = tokenize (InStr (acc @ [c])) (34 # rest)"
      by (rule lex_escape_unit)
    with False show ?thesis by simp
  qed
  then show ?case by (simp add: lex_InStr_close)
next
  case (3 c d cs)
  show ?case
  proof (cases "is_high c \<and> is_low d")
    case True
    then have "32 \<le> c" "c \<noteq> 34" "c \<noteq> 92" "32 \<le> d" "d \<noteq> 34" "d \<noteq> 92"
      by (auto simp: is_high_def is_low_def)
    then have "tokenize (InStr acc) (c # d # quote_units cs @ 34 # rest)
        = tokenize (InStr ((acc @ [c]) @ [d])) (quote_units cs @ 34 # rest)"
      using lex_InStr_plain [of c acc "d # quote_units cs @ 34 # rest"]
        lex_InStr_plain [of d "acc @ [c]" "quote_units cs @ 34 # rest"]
      by presburger
    moreover have "quote_units (c # d # cs) = c # d # quote_units cs"
      using True by simp
    ultimately show ?thesis using "3.IH"(1) [OF True, of "(acc @ [c]) @ [d]"] by simp
  next
    case False
    show ?thesis
    proof (cases "is_high c \<or> is_low c")
      case True
      then have "tokenize (InStr acc) (unicode_escape c @ quote_units (d # cs) @ 34 # rest)
          = tokenize (InStr (acc @ [c])) (quote_units (d # cs) @ 34 # rest)"
        by (intro lex_unicode_escape surrogate_small)
      moreover have "quote_units (c # d # cs) = unicode_escape c @ quote_units (d # cs)"
        using True False by auto
      ultimately show ?thesis using "3.IH"(2) [OF False True, of "acc @ [c]"] by simp
    next
      case plain: False
      have "tokenize (InStr acc) (escape_unit c @ quote_units (d # cs) @ 34 # rest)
          = tokenize (InStr (acc @ [c])) (quote_units (d # cs) @ 34 # rest)"
        by (rule lex_escape_unit)
      moreover have "quote_units (c # d # cs) = escape_unit c @ quote_units (d # cs)"
        using plain False by auto
      ultimately show ?thesis using "3.IH"(3) [OF False plain, of "acc @ [c]"] by simp
    qed
  qed
qed

lemma lex_quote:
  "tokenize Idle (quote s @ rest) = map_option (Cons (TString s)) (tokenize Idle rest)"
proof -
  have "tokenize Idle (quote s @ rest) = tokenize (InStr []) (quote_units s @ 34 # rest)"
    unfolding quote_def by (simp add: tokenize.simps idle_step_def is_json_ws_def map_option_append_Nil)
  then show ?thesis by (simp only: lex_quote_units append_Nil)
qed


lemma lex_punct:
  "tokenize Idle (123 # rest) = map_option (Cons LBrace) (tokenize Idle rest)"
  "tokenize Idle (125 # rest) = map_option (Cons RBrace) (tokenize Idle rest)"
  "tokenize Idle (58 # rest) = map_option (Cons Colon) (tokenize Idle rest)"
  "tokenize Idle (44 # rest) = map_option (Cons Comma) (tokenize Idle rest)"
  by (simp_all add: tokenize.simps idle_step_def is_json_ws_def map_option_append_single)

lemma lex_null:
  "tokenize Idle (110 # 117 # 108 # 108 # rest) = map_option (Cons TNull) (tokenize Idle rest)"
  by (simp add: tokenize.simps idle_step_def is_json_ws_def is_digit_def map_option_append_single
      map_option_append_Nil)

lemma lex_Idle_Nil: "tokenize Idle [] = Some []"
  by (simp add: tokenize.simps)
lemma stringify_failure_record_shape:
  "stringify_failure_record r =
     123 # quote (js ''videoId'') @ 58 # quote (videoId r)
       @ 44 # quote (js ''reason'') @ 58 # quote (reason r)
       @ 44 # quote (js ''timestamp'') @ 58 # quote (timestamp r)
       @ 44 # quote (js ''error'') @ 58 #
       (case error r of None \<Rightarrow> js ''null'' @ [125] | Some e \<Rightarrow> quote e @ [125])"
  by (simp add: stringify_failure_record_def quote_def escape_unit_def is_high_def is_low_def
      split: option.splits)

lemma lex_stringify_failure_record:
  "tokenize Idle (stringify_failure_record r) =
     Some [LBrace, TString (js ''videoId''), Colon, TString (videoId r), Comma,
           TString (js ''reason''), Colon, TString (reason r), Comma,
           TString (js ''timestamp''), Colon, TString (timestamp r), Comma,
           TString (js ''error''), Colon,
           (case error r of None \<Rightarrow> TNull | Some e \<Rightarrow> TString e), RBrace]"
  unfolding stringify_failure_record_shape
  by (cases "error r") (simp_all add: lex_punct lex_quote lex_null lex_Idle_Nil)

lemma JSON_parse_stringify_failure_record:
  "JSON_parse (stringify_failure_record r) = Some (failure_record_json r)"
  unfolding JSON_parse_def lex_stringify_failure_record failure_record_json_def
  by (cases "error r") simp_all

lemma record_matches_stringify:
  "record_matches (stringify_failure_record r) vid = Some (videoId r = vid)"
  by (simp add: record_matches_def JSON_parse_stringify_failure_record failure_record_json_def)

text \<open>The parser and the serialiser on some texts.\<close>

lemma JSON_parse_accepts:
  "JSON_parse (js '' [1, -2.5e+3, true, false, null, \"a\"] '')
     = Some (JArr [JNum (js ''1''), JNum (js ''-2.5e+3''), JBool True, JBool False, JNull,
                   JStr (js ''a'')])"
  "JSON_parse (js ''{\"a\": {\"b\": []}, \"a\": \"x\"}'')
     = Some (JObj [(js ''a'', JObj [(js ''b'', JArr [])]), (js ''a'', JStr (js ''x''))])"
  "JSON_parse (js ''\"tab'' @ [92] @ js ''tquote'' @ [92] @ js ''\"u'' @ [92] @ js ''u0041\"'')
     = Some (JStr (js ''tab'' @ [9] @ js ''quote\"uA''))"
  "JSON_parse (js ''123'') = Some (JNum (js ''123''))"
  "JSON_parse (js ''null'') = Some JNull"
  by code_simp+

lemma JSON_parse_rejects:
  "JSON_parse (js '''') = None"
  "JSON_parse (js ''unknown_5_1000_0_0'') = None"
  "JSON_parse (js ''1234_7_1000_1048576_30'') = None"
  "JSON_parse (js ''[1,]'') = None"
  "JSON_parse (js ''{\"a\":1,}'') = None"
  "JSON_parse (js ''{\"a\" 1}'') = None"
  "JSON_parse (js ''[1}'') = None"
  "JSON_parse (js ''01'') = None"
  "JSON_parse (js ''1.'') = None"
  "JSON_parse (js ''-'') = None"
  "JSON_parse (js ''nul'') = None"
  "JSON_parse (js ''null null'') = None"
  "JSON_parse (js ''\"abc'') = None"
  "JSON_parse (js ''[1] 2'') = None"
  by code_simp+

lemma stringify_failure_record_example:
  "stringify_failure_record
     \<lparr>videoId = js ''unknown_5_1000_0_0'', reason = js ''Video file too large'',
      timestamp = js ''2024-01-01T00:00:00.000Z'', error = Some (js ''File \"a\" too large'')\<rparr>
   = js ''{\"videoId\":\"unknown_5_1000_0_0\",\"reason\":\"Video file too large\",''
       @ js ''\"timestamp\":\"2024-01-01T00:00:00.000Z\",\"error\":\"File ''
       @ [92] @ js ''\"a'' @ [92] @ js ''\" too large\"}''"
  by (simp add: stringify_failure_record_def quote_def escape_unit_def is_high_def is_low_def)

section \<open>The failed set\<close>

lemma isVideoFailed_iff:
  "isVideoFailed failed vid \<longleftrightarrow>
     (\<exists>e\<in>set failed. record_matches e vid = Some True \<or> (record_matches e vid = None \<and> e = vid))"
  by (induction failed) (auto split: option.splits)
lemma record_matches_True_iff:
  "record_matches e vid = Some True \<longleftrightarrow> has_videoId e vid"
proof (cases "JSON_parse e")
  case None
  then show ?thesis by (simp add: record_matches_def has_videoId_def)
next
  case (Some v)
  then show ?thesis by (cases v) (auto simp: record_matches_def has_videoId_def)
qed

lemma record_matches_generateVideoId:
  "record_matches (generateVideoId m) vid = None"
  by (simp add: record_matches_def JSON_parse_generateVideoId)

lemma isVideoFailed_in_FailedSet:
  "isVideoFailed failed (generateVideoId m) \<longleftrightarrow> in_FailedSet failed (generateVideoId m)"
  unfolding isVideoFailed_iff in_FailedSet_def record_matches_True_iff
  using record_matches_generateVideoId [of m "generateVideoId m"] by auto

lemma has_videoId_stringify:
  "has_videoId (stringify_failure_record r) fp \<longleftrightarrow> videoId r = fp"
  using record_matches_stringify [of r fp] by (simp add: record_matches_True_iff [symmetric])


section \<open>The fingerprint\<close>

text \<open>
  Claim C3. For every message, also one without peer identifier, without video size or
  without video duration, \<open>generateVideoId\<close> returns a string: it is a total function of
  the message alone, so two calls on equal messages return the same string, and nothing in
  it can throw, the optional chaining covering an absent \<open>peerId\<close> or \<open>video\<close> object. The
  string has the five parts joined by underscores; the first part is \<open>unknown\<close> when no
  peer identifier is present, and the size and the duration are \<open>0\<close> when they are
  missing.
\<close>

theorem generateVideoId_sentinels:
  "\<exists>p sz d.
     generateVideoId m
       = p @ js ''_'' @ show_int (msg_id m) @ js ''_'' @ show_int (date m) @ js ''_'' @ sz
           @ js ''_'' @ d
     \<and> (missing_peer m \<longrightarrow> p = js ''unknown'')
     \<and> (missing_size m \<longrightarrow> sz = js ''0'')
     \<and> (missing_duration m \<longrightarrow> d = js ''0'')
     \<and> (\<forall>m'. m' = m \<longrightarrow> generateVideoId m' = generateVideoId m)"
proof -
  let ?p = "or_default
              (or_else (or_else (opt_chain (peerId m) channelId) (opt_chain (peerId m) chatId))
                       (opt_chain (peerId m) userId))
              (js ''unknown'')"
  let ?sz = "or_default (opt_chain (video m) video_size) (js ''0'')"
  let ?d = "or_default (opt_chain (video m) video_duration) (js ''0'')"
  have shape: "generateVideoId m
      = ?p @ js ''_'' @ show_int (msg_id m) @ js ''_'' @ show_int (date m) @ js ''_'' @ ?sz
          @ js ''_'' @ ?d"
    by (simp add: generateVideoId_def Let_def)
  have p: "missing_peer m \<longrightarrow> ?p = js ''unknown''"
    by (auto simp: missing_peer_def or_default_def or_else_def opt_chain_def truthy_def
        split: option.splits)
  have sz: "missing_size m \<longrightarrow> ?sz = js ''0''"
    by (auto simp: missing_size_def or_default_def opt_chain_def split: option.splits)
  have d: "missing_duration m \<longrightarrow> ?d = js ''0''"
    by (auto simp: missing_duration_def or_default_def opt_chain_def split: option.splits)
  from shape p sz d show ?thesis by blast
qed

theorem generateVideoId_sentinels_witness:
  "missing_peer bare_message \<and> missing_size bare_message \<and> missing_duration bare_message
   \<and> generateVideoId bare_message = js ''unknown_5_1000_0_0''"
proof -
  have h: "missing_peer bare_message" "missing_size bare_message"
    "missing_duration bare_message"
    by (simp_all add: missing_peer_def missing_size_def missing_duration_def bare_message_def)
  have s: "show_int (msg_id bare_message) = js ''5''"
    "show_int (date bare_message) = js ''1000''"
    by code_simp+
  from generateVideoId_sentinels [of bare_message] h s show ?thesis by auto
qed

text \<open>
  Claim C10. The sentinel conflates absence with zero: two messages with the same peer
  identifier, message id and date, one without a video object and one whose video has a
  falsy size and a falsy duration (\<open>0\<close> or absent), are different messages with the same
  fingerprint.
\<close>

theorem generateVideoId_absent_video_collides:
  assumes "peerId m1 = peerId m2" and "msg_id m1 = msg_id m2" and "date m1 = date m2"
    and "video m1 = None" and "video m2 = Some v"
    and "falsy (video_size v)" and "falsy (video_duration v)"
  shows "m1 \<noteq> m2 \<and> generateVideoId m1 = generateVideoId m2"
proof
  from assms(4,5) show "m1 \<noteq> m2" by auto
  have "or_default (video_size v) (js ''0'') = js ''0''"
    using assms(6) by (auto simp: or_default_def truthy_def falsy_def split: option.splits)
  moreover have "or_default (video_duration v) (js ''0'') = js ''0''"
    using assms(7) by (auto simp: or_default_def truthy_def falsy_def split: option.splits)
  ultimately show "generateVideoId m1 = generateVideoId m2"
    using assms(1-5) by (simp add: generateVideoId_def Let_def opt_chain_def or_default_def)
qed

theorem generateVideoId_absent_video_collides_witness:
  "bare_message \<noteq> zero_video_message
   \<and> generateVideoId bare_message = generateVideoId zero_video_message
   \<and> generateVideoId zero_video_message = js ''unknown_5_1000_0_0''"
proof -
  have "generateVideoId zero_video_message = js ''unknown_5_1000_0_0''"
    by code_simp
  moreover have "falsy (Some 0)" by (simp add: falsy_def truthy_def)
  ultimately show ?thesis
    using generateVideoId_absent_video_collides
      [of bare_message zero_video_message "\<lparr>video_size = Some 0, video_duration = Some 0\<rparr>"]
    by (simp add: zero_video_message_def bare_message_def)
qed

section \<open>Both encodings of a failure\<close>

text \<open>
  The legacy comparison is reached only when the \<^verbatim>\<open>try\<close> throws. A bare entry that
  is itself a JSON text of a value other than \<open>null\<close>, such as \<open>123\<close>, parses without
  error, has no \<open>videoId\<close>, and is not compared with the identifier. No fingerprint is
  such a text.
\<close>

lemma isVideoFailed_bare_json_text: "\<not> isVideoFailed [js ''123''] (js ''123'')"
  by code_simp

text \<open>
  Claim C8. For every fingerprint that \<open>generateVideoId\<close> produces and every content of
  the failed set, \<open>isVideoFailed\<close> answers true when the set holds the bare fingerprint
  (the legacy encoding: \<^verbatim>\<open>JSON.parse\<close> throws on a fingerprint, so the comparison in
  the \<^verbatim>\<open>catch\<close> is reached), and when it holds a JSON text of an object whose
  \<open>videoId\<close> is the fingerprint (the structured encoding), in particular the text that
  \<open>addFailedVideo\<close> stores for a record with that \<open>videoId\<close>. The structured encoding is
  found for every identifier, a fingerprint or not.
\<close>

theorem isVideoFailed_both_encodings:
  "(generateVideoId m \<in> set failed \<longrightarrow> isVideoFailed failed (generateVideoId m))
   \<and> ((\<exists>e\<in>set failed. has_videoId e fp) \<longrightarrow> isVideoFailed failed fp)
   \<and> (videoId r = fp \<and> stringify_failure_record r \<in> set failed \<longrightarrow> isVideoFailed failed fp)"
proof -
  have legacy: "generateVideoId m \<in> set failed \<longrightarrow> isVideoFailed failed (generateVideoId m)"
    by (simp add: isVideoFailed_in_FailedSet in_FailedSet_def)
  have structured: "(\<exists>e\<in>set failed. has_videoId e fp) \<longrightarrow> isVideoFailed failed fp"
    unfolding isVideoFailed_iff record_matches_True_iff by blast
  with has_videoId_stringify [of r fp]
  have "videoId r = fp \<and> stringify_failure_record r \<in> set failed \<longrightarrow> isVideoFailed failed fp"
    by blast
  with legacy structured show ?thesis by blast
qed

theorem isVideoFailed_both_encodings_witness:
  "generateVideoId bare_message \<in> set example_failed
   \<and> (\<exists>e\<in>set example_failed. has_videoId e (generateVideoId bare_message))
   \<and> videoId example_record = generateVideoId bare_message
   \<and> stringify_failure_record example_record \<in> set example_failed
   \<and> isVideoFailed example_failed (generateVideoId bare_message)"
proof -
  have h1: "generateVideoId bare_message \<in> set example_failed"
    by (simp add: example_failed_def)
  have h3: "videoId example_record = generateVideoId bare_message"
    by (simp add: example_record_def)
  have h4: "stringify_failure_record example_record \<in> set example_failed"
    by (simp add: example_failed_def)
  have "has_videoId (stringify_failure_record example_record) (generateVideoId bare_message)"
    by (simp add: has_videoId_stringify h3)
  with h4 have h2: "\<exists>e\<in>set example_failed. has_videoId e (generateVideoId bare_message)"
    by blast
  from isVideoFailed_both_encodings
    [of bare_message example_failed "generateVideoId bare_message" example_record]
    h1 h2 h3 h4
  show ?thesis by blast
qed

section \<open>The caption resolver's results\<close>

lemma trim_Nil: "trim [] = []"
  by (simp add: trim_def)
text \<open>
  Claim C7. For every video message whose own text is not empty after trimming,
  \<open>extractVideoCaption\<close> returns the trimmed text and makes no call at all: neither the
  entity nor the surrounding messages are fetched and the chat completion is not asked,
  whatever the world would have answered.
\<close>

theorem extractVideoCaption_own_text:
  assumes "message m = Some t" and "trim t \<noteq> []"
  shows "extractVideoCaption w m = (trim t, [])"
proof -
  from assms(2) have "t \<noteq> []" using trim_Nil by auto
  with assms have "has_text (message m)" by (simp add: has_text_def)
  with assms(1) show ?thesis by (simp add: extractVideoCaption_def message_text_def)
qed

theorem extractVideoCaption_own_text_witness:
  "message neighbour = Some (js ''look at this'') \<and> trim (js ''look at this'') \<noteq> []
   \<and> extractVideoCaption inventing_world neighbour = (js ''look at this'', [])"
proof -
  have h1: "message neighbour = Some (js ''look at this'')" by (simp add: neighbour_def)
  have t: "trim (js ''look at this'') = js ''look at this''"
    by (simp add: trim_def is_space_def)
  then have h2: "trim (js ''look at this'') \<noteq> []" by simp
  from extractVideoCaption_own_text [OF h1 h2, of inventing_world] h1 h2 t
  show ?thesis by simp
qed

lemma find_first:
  "find P xs = Some c \<Longrightarrow> \<exists>pre post. xs = pre @ c # post \<and> P c \<and> (\<forall>x\<in>set pre. \<not> P x)"
proof (induction xs)
  case Nil
  then show ?case by simp
next
  case (Cons a xs)
  show ?case
  proof (cases "P a")
    case True
    with Cons.prems show ?thesis
      by (intro exI [of _ "[]"] exI [of _ xs]) simp
  next
    case False
    with Cons obtain pre post where "xs = pre @ c # post" "P c" "\<forall>x\<in>set pre. \<not> P x"
      by auto
    with False show ?thesis
      by (intro exI [of _ "a # pre"] exI [of _ post]) simp
  qed
qed

lemma fallback_caption_first:
  "(\<exists>pre c post. ctx = pre @ c # post \<and> eligible m c \<and> (\<forall>x\<in>set pre. \<not> eligible m x)
       \<and> fallback_caption m ctx = ctx_text c)
   \<or> ((\<forall>x\<in>set ctx. \<not> eligible m x) \<and> fallback_caption m ctx = [])"
proof (cases "find (eligible m) ctx")
  case None
  then have "\<forall>x\<in>set ctx. \<not> eligible m x" by (simp add: find_None_iff)
  moreover from None have "fallback_caption m ctx = []"
    by (simp add: fallback_caption_def fallbackMessage_def eligible_def [abs_def])
  ultimately show ?thesis by blast
next
  case (Some c)
  from find_first [OF Some] obtain pre post
    where "ctx = pre @ c # post" "eligible m c" "\<forall>x\<in>set pre. \<not> eligible m x" by blast
  moreover from Some have "fallback_caption m ctx = ctx_text c"
    by (simp add: fallback_caption_def fallbackMessage_def eligible_def [abs_def])
  ultimately show ?thesis by blast
qed

lemma findRelevantCaption_fallback:
  assumes "ctx \<noteq> []" and "ranking_failed w m ctx"
  shows "fst (findRelevantCaption w m ctx) = fallback_caption m ctx"
proof (cases "valid_date (date m)")
  case False
  with assms(1) show ?thesis by (simp add: findRelevantCaption_def)
next
  case True
  show ?thesis
  proof (cases "chat_completion w m ctx")
    case (Inl e)
    with True assms(1) show ?thesis by (simp add: findRelevantCaption_def)
  next
    case (Inr content)
    with True assms(2) have fv: "failed_validation ctx content"
      by (simp add: ranking_failed_def)
    then have "find (matches_window (strip_quotes (trim content))) ctx = None"
      by (simp add: failed_validation_def Let_def find_None_iff)
    with fv Inr True assms(1) show ?thesis
      by (simp add: findRelevantCaption_def failed_validation_def Let_def)
  qed
qed

text \<open>
  What the fallback of the source returns when the ranking step fails: the text of the
  first window entry whose sender object is the one of the video (or whose sender is
  \<^verbatim>\<open>undefined\<close> like the video's) and that is less than 300 seconds away, and the empty
  string when the window has no such entry.
\<close>

lemma extractVideoCaption_fallback_by_identity:
  assumes "\<not> has_text (message m)" and "getEntity w = None"
    and "getMessages w (messageIds m) = Inr surroundingMessages"
    and "ctx = contextMessages m surroundingMessages" and "ctx \<noteq> []"
    and "ranking_failed w m ctx"
    and "r = fst (extractVideoCaption w m)"
  shows "r = fst (findRelevantCaption w m ctx)
    \<and> ((\<exists>pre c post. ctx = pre @ c # post \<and> eligible m c \<and> (\<forall>x\<in>set pre. \<not> eligible m x)
           \<and> r = ctx_text c)
        \<or> ((\<forall>x\<in>set ctx. \<not> eligible m x) \<and> r = []))"
proof -
  have r: "r = fst (findRelevantCaption w m ctx)"
    using assms(1-5,7) by (simp add: extractVideoCaption_def Let_def split: prod.splits)
  then have "r = fallback_caption m ctx"
    using findRelevantCaption_fallback [OF assms(5,6)] by simp
  with r fallback_caption_first [of ctx m] show ?thesis by simp
qed

text \<open>
  Claim C6. The claim promises, when the ranking call throws, the text of the first
  window entry whose sender equals the sender of the video and whose time difference is
  below 300 seconds; this is also what the comment in the source announces (same sender
  within 5 minutes). The source compares the two sender objects with \<^verbatim>\<open>===\<close>, and each
  message has a sender object of its own. For the video of the user 42 without own text,
  whose window is the single message \<open>look at this\<close> that the user 42 sent ten seconds
  before, and a ranking call that throws, the two senders hold the same number and are
  not identical, and \<open>extractVideoCaption\<close> returns the empty string where the claim
  promises \<open>look at this\<close>.
\<close>

theorem extractVideoCaption_same_sender_missed:
  "message video_of_sender = None
   \<and> getEntity sender_world = None
   \<and> getMessages sender_world (messageIds video_of_sender)
        = Inr [None, Some neighbour_of_sender, Some video_of_sender, None, None]
   \<and> contextMessages video_of_sender
          [None, Some neighbour_of_sender, Some video_of_sender, None, None]
        = [\<lparr>ctx_id = 9, ctx_text = js ''look at this'',
            ctx_senderId = Some \<lparr>object_id = 2, big_value = 42\<rparr>,
            ctx_date = 990, position = js ''before'', timeDiff = 10\<rparr>]
   \<and> chat_completion sender_world video_of_sender
          (contextMessages video_of_sender
             [None, Some neighbour_of_sender, Some video_of_sender, None, None])
        = Inl \<lparr>error_message = js ''timeout'', code = None\<rparr>
   \<and> same_sender (senderId neighbour_of_sender) (senderId video_of_sender)
   \<and> \<not> strict_equals (senderId neighbour_of_sender) (senderId video_of_sender)
   \<and> extractVideoCaption sender_world video_of_sender
        = ([], [GetEntity, GetMessages [8, 9, 10, 11, 12], ChatCompletion])"
proof -
  let ?sur = "[None, Some neighbour_of_sender, Some video_of_sender, None, None]"
  let ?ctx = "contextMessages video_of_sender ?sur"
  have ctx: "?ctx = [\<lparr>ctx_id = 9, ctx_text = js ''look at this'',
                      ctx_senderId = Some \<lparr>object_id = 2, big_value = 42\<rparr>,
                      ctx_date = 990, position = js ''before'', timeDiff = 10\<rparr>]"
    by (simp add: contextMessages_def keep_context_def to_context_def has_text_def
        message_text_def trim_def is_space_def video_of_sender_def neighbour_of_sender_def
        video_without_text_def neighbour_def)
  have h0: "message video_of_sender = None"
    by (simp add: video_of_sender_def video_without_text_def)
  then have h1: "\<not> has_text (message video_of_sender)" by (simp add: has_text_def)
  have h2: "getEntity sender_world = None" by (simp add: sender_world_def quiet_world_def)
  have h3: "getMessages sender_world (messageIds video_of_sender) = Inr ?sur"
    by (simp add: sender_world_def)
  have h4: "chat_completion sender_world video_of_sender ?ctx
      = Inl \<lparr>error_message = js ''timeout'', code = None\<rparr>"
    by (simp add: sender_world_def quiet_world_def)
  have ids: "messageIds video_of_sender = [8, 9, 10, 11, 12]"
    by (simp add: messageIds_def video_of_sender_def video_without_text_def)
  have h5: "?ctx \<noteq> []" by (simp add: ctx)
  have same: "same_sender (senderId neighbour_of_sender) (senderId video_of_sender)"
    by (simp add: same_sender_def video_of_sender_def neighbour_of_sender_def)
  have other: "\<not> strict_equals (senderId neighbour_of_sender) (senderId video_of_sender)"
    by (simp add: strict_equals_def video_of_sender_def neighbour_of_sender_def)
  have c: "findRelevantCaption sender_world video_of_sender ?ctx = ([], [ChatCompletion])"
    unfolding ctx
    by (simp add: findRelevantCaption_def sender_world_def quiet_world_def fallback_caption_def
        fallbackMessage_def strict_equals_def valid_date_def video_of_sender_def
        video_without_text_def)
  have r: "extractVideoCaption sender_world video_of_sender
      = ([], [GetEntity, GetMessages [8, 9, 10, 11, 12], ChatCompletion])"
    using h5 by (simp add: extractVideoCaption_def h1 h2 h3 [unfolded ids] c ids)
  from h0 h2 h3 ctx h4 same other r show ?thesis by simp
qed

lemma fallback_caption_in_window:
  "fallback_caption m ctx \<noteq> [] \<Longrightarrow> \<exists>c\<in>set ctx. fallback_caption m ctx = ctx_text c"
  using fallback_caption_first [of ctx m] by auto

lemma findRelevantCaption_origin:
  assumes "fst (findRelevantCaption w m ctx) = r" and "r \<noteq> []"
  shows "(\<exists>c\<in>set ctx. r = ctx_text c)
     \<or> (\<exists>content. chat_completion w m ctx = Inr content \<and> r = strip_quotes (trim content)
           \<and> (\<exists>c\<in>set ctx. matches_window r c))"
proof (cases "ctx = [] \<or> \<not> valid_date (date m)")
  case True
  with assms fallback_caption_in_window [of m ctx] show ?thesis
    by (auto simp: findRelevantCaption_def split: if_splits)
next
  case False
  show ?thesis
  proof (cases "chat_completion w m ctx")
    case (Inl e)
    with False assms fallback_caption_in_window [of m ctx] show ?thesis
      by (auto simp: findRelevantCaption_def)
  next
    case (Inr content)
    let ?a = "strip_quotes (trim content)"
    show ?thesis
    proof (cases "find (matches_window ?a) ctx")
      case None
      with False Inr assms fallback_caption_in_window [of m ctx] show ?thesis
        by (auto simp: findRelevantCaption_def Let_def split: if_splits)
    next
      case (Some c)
      then have "c \<in> set ctx" "matches_window ?a c"
        using find_first [OF Some] by auto
      moreover from Some False Inr assms have "r = ?a"
        by (auto simp: findRelevantCaption_def Let_def split: if_splits)
      ultimately show ?thesis using Inr by blast
    qed
  qed
qed
text \<open>
  Claim C5, as amended. A caption that is not empty is the trimmed text of the video
  message itself, or the text of a window entry (chosen by the fallback), or the cleaned
  answer of the chat completion, which then equals, is contained in or contains the text
  of some window entry. The claim as stated asks for more, namely that the caption always
  is the own text or the text of a window entry; the answer \<open>look\<close> for a window holding
  \<open>look at this\<close> is accepted by the containment test and returned as it is.
\<close>

theorem extractVideoCaption_origin:
  assumes "fst (extractVideoCaption w m) = r" and "r \<noteq> []"
  shows "(\<exists>t. message m = Some t \<and> r = trim t)
     \<or> (\<exists>surroundingMessages ctx.
           getMessages w (messageIds m) = Inr surroundingMessages
           \<and> ctx = contextMessages m surroundingMessages
           \<and> ((\<exists>c\<in>set ctx. r = ctx_text c)
               \<or> (\<exists>content. chat_completion w m ctx = Inr content
                     \<and> r = strip_quotes (trim content)
                     \<and> (\<exists>c\<in>set ctx. matches_window r c))))"
proof (cases "has_text (message m)")
  case True
  with assms show ?thesis
    by (auto simp: extractVideoCaption_def has_text_def message_text_def split: option.splits)
next
  case False
  with assms obtain sur where sur: "getMessages w (messageIds m) = Inr sur"
    and nonempty: "contextMessages m sur \<noteq> []"
    by (auto simp: extractVideoCaption_def Let_def split: option.splits sum.splits if_splits)
  with False assms have "fst (findRelevantCaption w m (contextMessages m sur)) = r"
    by (auto simp: extractVideoCaption_def Let_def split: option.splits prod.splits if_splits)
  from findRelevantCaption_origin [OF this assms(2)] sur show ?thesis by blast
qed

theorem extractVideoCaption_origin_witness:
  "fst (extractVideoCaption quiet_world video_without_text) = js ''look at this''
   \<and> js ''look at this'' \<noteq> []
   \<and> getMessages quiet_world (messageIds video_without_text)
        = Inr [None, Some neighbour, Some video_without_text, None, None]
   \<and> js ''look at this''
        \<in> set (map ctx_text (contextMessages video_without_text
                  [None, Some neighbour, Some video_without_text, None, None]))"
proof -
  let ?sur = "[None, Some neighbour, Some video_without_text, None, None]"
  let ?ctx = "contextMessages video_without_text ?sur"
  have ctx: "?ctx = [\<lparr>ctx_id = 9, ctx_text = js ''look at this'', ctx_senderId = None,
                      ctx_date = 990, position = js ''before'', timeDiff = 10\<rparr>]"
    by (simp add: contextMessages_def keep_context_def to_context_def has_text_def
        message_text_def trim_def is_space_def video_without_text_def neighbour_def)
  have h1: "\<not> has_text (message video_without_text)"
    by (simp add: has_text_def video_without_text_def)
  have h2: "getEntity quiet_world = None" by (simp add: quiet_world_def)
  have h3: "getMessages quiet_world (messageIds video_without_text) = Inr ?sur"
    by (simp add: quiet_world_def)
  have h5: "?ctx \<noteq> []" by (simp add: ctx)
  have c: "findRelevantCaption quiet_world video_without_text ?ctx
             = (js ''look at this'', [ChatCompletion])"
    unfolding ctx
    by (simp add: findRelevantCaption_def quiet_world_def fallback_caption_def
        fallbackMessage_def strict_equals_def valid_date_def video_without_text_def)
  have r: "fst (extractVideoCaption quiet_world video_without_text) = js ''look at this''"
    by (simp add: extractVideoCaption_def h1 h2 h3 h5 c)
  have ne: "js ''look at this'' \<noteq> []" by simp
  have "message video_without_text = None" by (simp add: video_without_text_def)
  with extractVideoCaption_origin [OF r ne] h3 r ne
  have "(\<exists>c\<in>set ?ctx. js ''look at this'' = ctx_text c)
       \<or> (\<exists>content. chat_completion quiet_world video_without_text ?ctx = Inr content
             \<and> js ''look at this'' = strip_quotes (trim content)
             \<and> (\<exists>c\<in>set ?ctx. matches_window (js ''look at this'') c))"
    by auto
  moreover have "chat_completion quiet_world video_without_text ?ctx
      = Inl \<lparr>error_message = js ''timeout'', code = None\<rparr>"
    by (simp add: quiet_world_def)
  ultimately have "\<exists>c\<in>set ?ctx. js ''look at this'' = ctx_text c" by auto
  with r ne h3 show ?thesis by auto
qed

theorem extractVideoCaption_invents_counterexample:
  "fst (extractVideoCaption inventing_world video_without_text) = js ''look''
   \<and> message video_without_text = None
   \<and> getMessages inventing_world (messageIds video_without_text)
        = Inr [None, Some neighbour, Some video_without_text, None, None]
   \<and> map ctx_text (contextMessages video_without_text
          [None, Some neighbour, Some video_without_text, None, None]) = [js ''look at this'']
   \<and> \<not> own_or_window_text inventing_world video_without_text"
proof -
  let ?sur = "[None, Some neighbour, Some video_without_text, None, None]"
  let ?ctx = "contextMessages video_without_text ?sur"
  have ctx: "?ctx = [\<lparr>ctx_id = 9, ctx_text = js ''look at this'', ctx_senderId = None,
                      ctx_date = 990, position = js ''before'', timeDiff = 10\<rparr>]"
    by (simp add: contextMessages_def keep_context_def to_context_def has_text_def
        message_text_def trim_def is_space_def video_without_text_def neighbour_def)
  have h0: "message video_without_text = None" by (simp add: video_without_text_def)
  have h1: "\<not> has_text (message video_without_text)"
    by (simp add: has_text_def video_without_text_def)
  have h2: "getEntity inventing_world = None" by (simp add: inventing_world_def quiet_world_def)
  have h3: "getMessages inventing_world (messageIds video_without_text) = Inr ?sur"
    by (simp add: inventing_world_def quiet_world_def)
  have h5: "?ctx \<noteq> []" by (simp add: ctx)
  have c: "findRelevantCaption inventing_world video_without_text ?ctx
             = (js ''look'', [ChatCompletion])"
    unfolding ctx
    by (simp add: findRelevantCaption_def inventing_world_def quiet_world_def valid_date_def
        video_without_text_def Let_def strip_quotes_def trim_def is_space_def starts_with_def
        ends_with_def matches_window_def str_includes_def sublist_Cons_right)
  have r: "fst (extractVideoCaption inventing_world video_without_text) = js ''look''"
    by (simp add: extractVideoCaption_def h1 h2 h3 h5 c)
  have t: "map ctx_text ?ctx = [js ''look at this'']" by (simp add: ctx)
  have "\<not> own_or_window_text inventing_world video_without_text"
    by (simp add: own_or_window_text_def r h0 h3 t)
  with r h0 h3 t show ?thesis by blast
qed


section \<open>The batch scanner's result\<close>

lemma scan_page_Some:
  "scan_page s page = Some m \<Longrightarrow>
     \<exists>before after. page = before @ m # after \<and> (\<forall>x\<in>set before. resolved s x) \<and> \<not> resolved s m"
proof (induction page)
  case Nil
  then show ?case by simp
next
  case (Cons a page)
  show ?case
  proof (cases "resolved s a")
    case False
    with Cons.prems have "a = m" by (auto simp: resolved_def Let_def)
    with False show ?thesis
      by (intro exI [of _ "[]"] exI [of _ page]) simp
  next
    case True
    with Cons.prems have "scan_page s page = Some m" by (auto simp: resolved_def Let_def)
    from Cons.IH [OF this] obtain before after
      where "page = before @ m # after" "\<forall>x\<in>set before. resolved s x" "\<not> resolved s m"
      by blast
    with True show ?thesis
      by (intro exI [of _ "a # before"] exI [of _ after]) simp
  qed
qed

lemma scan_page_skip: "resolved s m \<Longrightarrow> scan_page s (m # ms) = scan_page s ms"
  by (auto simp: resolved_def Let_def)

lemma scan_page_hit: "\<not> resolved s m \<Longrightarrow> scan_page s (m # ms) = Some m"
  by (auto simp: resolved_def Let_def)

lemma scan_page_None: "scan_page s page = None \<longleftrightarrow> (\<forall>x\<in>set page. resolved s x)"
  by (induction page) (auto simp: resolved_def Let_def)
lemma has_videoId_generateVideoId: "\<not> has_videoId (generateVideoId m) fp"
  by (simp add: has_videoId_def JSON_parse_generateVideoId)

lemma generateVideoId_not_record: "generateVideoId m \<noteq> stringify_failure_record r"
  using JSON_parse_generateVideoId [of m] JSON_parse_stringify_failure_record [of r] by auto

lemma generateVideoId_page_message:
  "generateVideoId (page_message 5) = js ''unknown_5_1000_0_0''"
  "generateVideoId (page_message 6) = js ''unknown_6_1000_0_0''"
  "generateVideoId (page_message 7) = js ''unknown_7_1000_0_0''"
  "generateVideoId (page_message 8) = js ''unknown_8_1000_0_0''"
  by (simp_all add: generateVideoId_def page_message_def bare_message_def or_default_def
      or_else_def opt_chain_def truthy_def show_int_def show_nat.simps)

text \<open>
  Claim C1. Whatever the page and the two sets hold, a message that
  \<open>findOldestUnprocessedVideo\<close> returns is not resolved: its fingerprint is not in the
  processed set and is in the failed set under neither encoding; and every message before
  it in the page is resolved, so it is the first one in page order that is in neither set.
  The scanner returns \<open>null\<close> only when the whole page is resolved, and throws only when
  \<^verbatim>\<open>getEntity\<close> throws or when the iteration throws after a resolved prefix.
\<close>

theorem findOldestUnprocessedVideo_first_unresolved:
  assumes "iterMessages w (offsetId s) = (page, failure)"
  shows "case fst (findOldestUnprocessedVideo w s) of
           Inr (Some m) \<Rightarrow>
             (\<exists>before after. page = before @ m # after \<and> (\<forall>x\<in>set before. resolved s x))
             \<and> \<not> resolved s m
             \<and> generateVideoId m \<notin> set (processedVideos s)
             \<and> \<not> in_FailedSet (failedVideos s) (generateVideoId m)
         | Inr None \<Rightarrow> (\<forall>x\<in>set page. resolved s x) \<and> failure = None \<and> getEntity w = None
         | Inl e \<Rightarrow>
             getEntity w = Some e
             \<or> ((\<forall>x\<in>set page. resolved s x) \<and> failure = Some e \<and> getEntity w = None)"
proof (cases "getEntity w")
  case (Some e)
  then show ?thesis by (simp add: findOldestUnprocessedVideo_def)
next
  case entity: None
  show ?thesis
  proof (cases "scan_page s page")
    case None
    then have all: "\<forall>x\<in>set page. resolved s x" by (simp add: scan_page_None)
    show ?thesis
    proof (cases failure)
      case None
      with \<open>scan_page s page = None\<close> assms all entity show ?thesis
        by (simp add: findOldestUnprocessedVideo_def Let_def)
    next
      case (Some e)
      with \<open>scan_page s page = None\<close> assms all entity show ?thesis
        by (simp add: findOldestUnprocessedVideo_def)
    qed
  next
    case (Some m)
    from scan_page_Some [OF Some] obtain before after
      where split: "page = before @ m # after" "\<forall>x\<in>set before. resolved s x"
        and m: "\<not> resolved s m"
      by blast
    from m have "generateVideoId m \<notin> set (processedVideos s)"
      "\<not> in_FailedSet (failedVideos s) (generateVideoId m)"
      by (simp_all add: resolved_def Set_has_def isVideoFailed_in_FailedSet)
    moreover from Some assms entity have "fst (findOldestUnprocessedVideo w s) = Inr (Some m)"
      by (simp add: findOldestUnprocessedVideo_def)
    ultimately show ?thesis using split m by auto
  qed
qed

theorem findOldestUnprocessedVideo_first_unresolved_witness:
  "iterMessages scan_world (offsetId scan_state) = (scan_page_example, None)
   \<and> fst (findOldestUnprocessedVideo scan_world scan_state) = Inr (Some (page_message 8))
   \<and> scan_page_example
        = [page_message 5, page_message 6, page_message 7] @ page_message 8 # [page_message 9]
   \<and> resolved scan_state (page_message 5) \<and> resolved scan_state (page_message 6)
   \<and> resolved scan_state (page_message 7) \<and> \<not> resolved scan_state (page_message 8)"
proof -
  have h: "iterMessages scan_world (offsetId scan_state) = (scan_page_example, None)"
    by (simp add: scan_world_def)
  have failed: "isVideoFailed (failedVideos scan_state) (generateVideoId m)
      \<longleftrightarrow> generateVideoId m = generateVideoId (page_message 6)
          \<or> generateVideoId m = generateVideoId (page_message 7)" for m
    by (auto simp: isVideoFailed_in_FailedSet in_FailedSet_def scan_state_def
        has_videoId_stringify has_videoId_generateVideoId generateVideoId_not_record
        scan_record_def)
  have processed: "Set_has (processedVideos scan_state) fp
      \<longleftrightarrow> fp = generateVideoId (page_message 5)" for fp
    by (simp add: Set_has_def scan_state_def)
  have r: "resolved scan_state (page_message 5)" "resolved scan_state (page_message 6)"
    "resolved scan_state (page_message 7)" "\<not> resolved scan_state (page_message 8)"
    by (simp_all only: resolved_def failed processed)
       (simp_all add: generateVideoId_page_message)
  have "scan_page scan_state scan_page_example = Some (page_message 8)"
    by (simp only: scan_page_example_def scan_page_skip scan_page_hit r not_False_eq_True)
  then have f: "fst (findOldestUnprocessedVideo scan_world scan_state)
      = Inr (Some (page_message 8))"
    using h by (simp add: findOldestUnprocessedVideo_def scan_world_def quiet_world_def)
  from findOldestUnprocessedVideo_first_unresolved [OF h] f r h show ?thesis
    by (simp add: scan_page_example_def)
qed

section \<open>The cursor\<close>

lemma loadOffset_Holds: "loadOffset (Holds d) = offset d"
  by (simp add: loadOffset_def)

lemma saveOffset_offsets:
  "currentOffset (saveOffset w n s) = (if writeFileSync w = Written then n else currentOffset s)"
  "persisted_offset (saveOffset w n s)
     = (case writeFileSync w of Written \<Rightarrow> n | Refused \<Rightarrow> persisted_offset s | Torn \<Rightarrow> 0)"
  by (simp_all add: saveOffset_def persisted_offset_def loadOffset_Holds loadOffset_def
      split: write_result.splits)

lemma findOldestUnprocessedVideo_offsets:
  "snd (findOldestUnprocessedVideo w s) = s
   \<or> (fst (findOldestUnprocessedVideo w s) = Inr None
       \<and> snd (findOldestUnprocessedVideo w s) = saveOffset w (currentOffset s + 50) s)"
  by (auto simp: findOldestUnprocessedVideo_def Let_def batchSize_def
      split: option.splits prod.splits)

lemma findOldestUnprocessedVideo_exhausted:
  assumes "getEntity w = None" and "iterMessages w (offsetId s) = (page, None)"
    and "list_all (resolved s) page"
  shows "findOldestUnprocessedVideo w s = (Inr None, saveOffset w (currentOffset s + 50) s)"
proof -
  from assms(3) have "scan_page s page = None"
    by (simp add: scan_page_None list_all_iff)
  with assms(1,2) show ?thesis
    by (simp add: findOldestUnprocessedVideo_def Let_def batchSize_def)
qed

lemma other_operations_offsets:
  "currentOffset (run_catch w vm e s) = currentOffset s"
  "offsetFile (run_catch w vm e s) = offsetFile s"
  "currentOffset (markProcessed w vid s) = currentOffset s"
  "offsetFile (markProcessed w vid s) = offsetFile s"
  by (simp_all add: run_catch_def addFailedVideo_def saveFailedVideos_def markProcessed_def
      saveProcessedVideos_def Let_def split: option.splits write_result.splits)

lemma perform_currentOffset: "currentOffset s \<le> currentOffset (perform step s)"
proof -
  obtain w op where step: "step = (w, op)" by (cases step)
  show ?thesis
  proof (cases op)
    case FindOldestUnprocessedVideo
    with step findOldestUnprocessedVideo_offsets [of w s] show ?thesis
      by (auto simp: saveOffset_offsets)
  next
    case (RunCatch vm e)
    with step show ?thesis by (simp add: other_operations_offsets)
  next
    case (MarkProcessed vid)
    with step show ?thesis by (simp add: other_operations_offsets)
  qed
qed

lemma perform_persisted_offset:
  assumes "offset_in_sync s" and "untorn step"
  shows "offset_in_sync (perform step s) \<and> persisted_offset s \<le> persisted_offset (perform step s)"
proof -
  obtain w op where step: "step = (w, op)" by (cases step)
  show ?thesis
  proof (cases op)
    case FindOldestUnprocessedVideo
    with step assms findOldestUnprocessedVideo_offsets [of w s] show ?thesis
      by (auto simp: saveOffset_offsets offset_in_sync_def split: write_result.splits)
  next
    case (RunCatch vm e)
    with step assms(1) show ?thesis
      by (simp add: other_operations_offsets offset_in_sync_def persisted_offset_def)
  next
    case (MarkProcessed vid)
    with step assms(1) show ?thesis
      by (simp add: other_operations_offsets offset_in_sync_def persisted_offset_def)
  qed
qed

lemma perform_all_currentOffset: "currentOffset s \<le> currentOffset (perform_all steps s)"
proof (induction steps arbitrary: s)
  case Nil
  show ?case by simp
next
  case (Cons step steps)
  from perform_currentOffset [of s step] Cons.IH [of "perform step s"] show ?case
    by (simp del: perform.simps)
qed

lemma perform_all_persisted_offset:
  "offset_in_sync s \<Longrightarrow> list_all untorn steps \<Longrightarrow>
     offset_in_sync (perform_all steps s)
     \<and> persisted_offset s \<le> persisted_offset (perform_all steps s)"
proof (induction steps arbitrary: s)
  case Nil
  then show ?case by simp
next
  case (Cons step steps)
  from Cons.prems have step: "untorn step" and steps: "list_all untorn steps" by simp_all
  from perform_persisted_offset [OF Cons.prems(1) step]
  have sync: "offset_in_sync (perform step s)"
    and le: "persisted_offset s \<le> persisted_offset (perform step s)" by simp_all
  from Cons.IH [OF sync steps] le show ?case
    by (simp del: perform.simps)
qed

lemma full_page_resolved: "list_all (resolved full_state) full_page"
  by (simp add: list_all_iff resolved_def Set_has_def full_state_def)

lemma full_page_length: "length full_page = 50"
  by (simp add: full_page_def)

lemma full_state_offsets:
  "currentOffset full_state = 100" "persisted_offset full_state = 100"
  "offset_in_sync full_state"
  by (simp_all add: offset_in_sync_def persisted_offset_def loadOffset_def full_state_def)

text \<open>
  Claim C2, as amended. No sequence of operations decreases the offset in memory, and,
  from a state in which the offset file agrees with the offset in memory, no sequence of
  operations in which every write of the offset file completes or leaves the file
  untouched decreases the persisted offset or breaks the agreement. When the scanner
  exhausts a page that has no unresolved candidate it returns \<open>null\<close>, and if the write
  of the offset file completes, the offset in memory and the persisted offset become the
  old offset in memory plus 50, which is the old persisted offset plus 50 when the two
  agreed. The claim as stated promises, without the conditions on the write and on the
  agreement, that the persisted offset never decreases and increases by exactly 50.
\<close>

theorem offset_monotone_and_batch_advance:
  "currentOffset s \<le> currentOffset (perform_all steps s)
   \<and> (offset_in_sync s \<and> list_all untorn steps \<longrightarrow>
        offset_in_sync (perform_all steps s)
        \<and> persisted_offset s \<le> persisted_offset (perform_all steps s))
   \<and> (getEntity w = None \<and> iterMessages w (offsetId s) = (page, None)
        \<and> list_all (resolved s) page \<longrightarrow>
          fst (findOldestUnprocessedVideo w s) = Inr None
          \<and> (writeFileSync w = Written \<longrightarrow>
               currentOffset (snd (findOldestUnprocessedVideo w s)) = currentOffset s + 50
               \<and> persisted_offset (snd (findOldestUnprocessedVideo w s)) = currentOffset s + 50
               \<and> (offset_in_sync s \<longrightarrow>
                    persisted_offset (snd (findOldestUnprocessedVideo w s))
                      = persisted_offset s + 50)))"
proof -
  have a: "currentOffset s \<le> currentOffset (perform_all steps s)"
    by (rule perform_all_currentOffset)
  have b: "offset_in_sync (perform_all steps s)
      \<and> persisted_offset s \<le> persisted_offset (perform_all steps s)"
    if "offset_in_sync s" "list_all untorn steps"
    using that by (rule perform_all_persisted_offset)
  have c: "fst (findOldestUnprocessedVideo w s) = Inr None
      \<and> (writeFileSync w = Written \<longrightarrow>
           currentOffset (snd (findOldestUnprocessedVideo w s)) = currentOffset s + 50
           \<and> persisted_offset (snd (findOldestUnprocessedVideo w s)) = currentOffset s + 50
           \<and> (offset_in_sync s \<longrightarrow>
                persisted_offset (snd (findOldestUnprocessedVideo w s))
                  = persisted_offset s + 50))"
    if "getEntity w = None" "iterMessages w (offsetId s) = (page, None)"
      "list_all (resolved s) page"
    using findOldestUnprocessedVideo_exhausted [OF that]
    by (simp add: saveOffset_offsets offset_in_sync_def)
  from a b c show ?thesis by blast
qed

theorem offset_monotone_and_batch_advance_witness:
  "offset_in_sync full_state
   \<and> list_all untorn [(healthy_world, FindOldestUnprocessedVideo)]
   \<and> getEntity healthy_world = None
   \<and> iterMessages healthy_world (offsetId full_state) = (full_page, None)
   \<and> list_all (resolved full_state) full_page \<and> writeFileSync healthy_world = Written
   \<and> length full_page = 50
   \<and> fst (findOldestUnprocessedVideo healthy_world full_state) = Inr None
   \<and> currentOffset (snd (findOldestUnprocessedVideo healthy_world full_state)) = 150
   \<and> persisted_offset (snd (findOldestUnprocessedVideo healthy_world full_state)) = 150
   \<and> persisted_offset full_state = 100
   \<and> offset_in_sync (perform_all [(healthy_world, FindOldestUnprocessedVideo)] full_state)
   \<and> currentOffset full_state
        \<le> currentOffset (perform_all [(healthy_world, FindOldestUnprocessedVideo)] full_state)"
proof -
  note h1 = full_state_offsets(3) and p = full_state_offsets(2) and c = full_state_offsets(1)
  have h2: "getEntity healthy_world = None" and h5: "writeFileSync healthy_world = Written"
    by (simp_all add: healthy_world_def quiet_world_def)
  then have h6: "list_all untorn [(healthy_world, FindOldestUnprocessedVideo)]" by simp
  have h3: "iterMessages healthy_world (offsetId full_state) = (full_page, None)"
    by (simp add: healthy_world_def)
  note h4 = full_page_resolved
  from offset_monotone_and_batch_advance
    [of full_state "[(healthy_world, FindOldestUnprocessedVideo)]" healthy_world full_page]
    h1 h2 h3 h4 h5 h6 p c full_page_length
  show ?thesis by simp
qed

theorem offset_not_advanced_counterexample:
  "length full_page = 50 \<and> list_all (resolved full_state) full_page
   \<and> getEntity full_disk_world = None
   \<and> iterMessages full_disk_world (offsetId full_state) = (full_page, None)
   \<and> writeFileSync full_disk_world = Torn
   \<and> offset_in_sync full_state
   \<and> fst (findOldestUnprocessedVideo full_disk_world full_state) = Inr None
   \<and> persisted_offset full_state = 100
   \<and> persisted_offset (snd (findOldestUnprocessedVideo full_disk_world full_state)) = 0
   \<and> currentOffset (snd (findOldestUnprocessedVideo full_disk_world full_state)) = 100
   \<and> persisted_offset
        (perform_all [(full_disk_world, FindOldestUnprocessedVideo),
                      (healthy_world, FindOldestUnprocessedVideo)] full_state) = 150"
proof -
  let ?s = "full_state\<lparr>offsetFile := Damaged\<rparr>"
  have h2: "getEntity full_disk_world = None" and h5: "writeFileSync full_disk_world = Torn"
    by (simp_all add: full_disk_world_def quiet_world_def)
  have h3: "iterMessages full_disk_world (offsetId full_state) = (full_page, None)"
    by (simp add: full_disk_world_def)
  have first: "findOldestUnprocessedVideo full_disk_world full_state = (Inr None, ?s)"
    using findOldestUnprocessedVideo_exhausted [OF h2 h3 full_page_resolved]
    by (simp add: saveOffset_def h5)
  have g2: "getEntity healthy_world = None" and g5: "writeFileSync healthy_world = Written"
    by (simp_all add: healthy_world_def quiet_world_def)
  have g3: "iterMessages healthy_world (offsetId ?s) = (full_page, None)"
    by (simp add: healthy_world_def)
  have g4: "list_all (resolved ?s) full_page"
    using full_page_resolved by (simp add: list_all_iff resolved_def)
  have c: "currentOffset ?s = 100" and d: "persisted_offset ?s = 0"
    by (simp_all add: persisted_offset_def loadOffset_def full_state_def)
  have second: "persisted_offset (snd (findOldestUnprocessedVideo healthy_world ?s)) = 150"
    using findOldestUnprocessedVideo_exhausted [OF g2 g3 g4]
    by (simp add: saveOffset_offsets g5 c)
  from first second c d h2 h3 h5 full_page_resolved full_page_length full_state_offsets
  show ?thesis by simp
qed

section \<open>The failure classifier's order\<close>

lemma failureReason_source_priority:
  "failureReason e = reason_text (first_matching source_priority e) e"
  by (simp add: failureReason_def source_priority_def)

lemma isVideoFailed_stringify_member:
  "stringify_failure_record r \<in> set failed \<Longrightarrow> isVideoFailed failed (videoId r)"
  unfolding isVideoFailed_iff using record_matches_stringify [of r "videoId r"] by auto

lemma stringify_failure_record_videoId:
  "stringify_failure_record r = stringify_failure_record r' \<Longrightarrow> videoId r = videoId r'"
  using JSON_parse_stringify_failure_record [of r] JSON_parse_stringify_failure_record [of r']
  by (simp add: failure_record_json_def)

lemma Set_add_member: "x \<in> set (Set_add xs x)"
  by (simp add: Set_add_def)

lemma saveFailedVideos_failedVideos: "failedVideos (saveFailedVideos w s) = failedVideos s"
  by (simp add: saveFailedVideos_def split: write_result.splits)

text \<open>
  Claim C4, as amended. The classifier assigns the first matching category in the order
  duration-exceeded, forbidden/permission, size-exceeded, unsupported-format,
  rate-limited, client error, server error, unknown: the permission test comes before
  the size test, not after it as the claim lists them. An error whose message contains
  \<open>video longer than\<close> is classified duration-exceeded; the \<^verbatim>\<open>catch\<close> block then adds
  the serialised record with that reason to the failed set (appending it when it is new),
  the text parses back to the record, and \<open>isVideoFailed\<close> answers true for the
  fingerprint afterwards.
\<close>

theorem failureReason_priority_and_duration_record:
  "failureReason e = reason_text (first_matching source_priority e) e
   \<and> (str_includes (error_message e) (js ''video longer than'') \<longrightarrow>
        first_matching source_priority e = DurationExceeded
        \<and> failureReason e = js ''Video too long (>2 minutes)''
        \<and> failedVideos (run_catch w (Some m) e s)
            = Set_add (failedVideos s) (stringify_failure_record (duration_record w m e))
        \<and> (stringify_failure_record (duration_record w m e) \<notin> set (failedVideos s) \<longrightarrow>
             failedVideos (run_catch w (Some m) e s)
               = failedVideos s @ [stringify_failure_record (duration_record w m e)])
        \<and> JSON_parse (stringify_failure_record (duration_record w m e))
            = Some (failure_record_json (duration_record w m e))
        \<and> isVideoFailed (failedVideos (run_catch w (Some m) e s)) (generateVideoId m))"
proof -
  have "failedVideos (run_catch w (Some m) e s)
      = Set_add (failedVideos s) (stringify_failure_record (duration_record w m e))"
    if "str_includes (error_message e) (js ''video longer than'')"
    using that
    by (simp add: run_catch_def addFailedVideo_def saveFailedVideos_failedVideos
        failureReason_def duration_record_def Let_def)
  moreover have "isVideoFailed (Set_add failed (stringify_failure_record (duration_record w m e)))
      (generateVideoId m)" for failed
    using isVideoFailed_stringify_member
      [of "duration_record w m e"
          "Set_add failed (stringify_failure_record (duration_record w m e))"]
    by (simp add: Set_add_member) (simp add: duration_record_def)
  ultimately show ?thesis
    by (auto simp: failureReason_source_priority JSON_parse_stringify_failure_record
        source_priority_def failureReason_def Set_add_def)
qed

theorem failureReason_priority_and_duration_record_witness:
  "str_includes (error_message too_long_error) (js ''video longer than'')
   \<and> failureReason too_long_error = js ''Video too long (>2 minutes)''
   \<and> stringify_failure_record (duration_record quiet_world bare_message too_long_error)
        \<notin> set (failedVideos scan_state)
   \<and> failedVideos (run_catch quiet_world (Some bare_message) too_long_error scan_state)
        = failedVideos scan_state
            @ [stringify_failure_record (duration_record quiet_world bare_message too_long_error)]
   \<and> isVideoFailed (failedVideos (run_catch quiet_world (Some bare_message) too_long_error scan_state))
        (generateVideoId bare_message)"
proof -
  have h1: "str_includes (error_message too_long_error) (js ''video longer than'')"
    by (simp add: too_long_error_def str_includes_def sublist_Cons_right)
  have "videoId (duration_record quiet_world bare_message too_long_error)
      \<noteq> videoId scan_record"
    by (simp add: duration_record_def scan_record_def generateVideoId_page_message)
       (simp add: generateVideoId_def bare_message_def or_default_def or_else_def
          opt_chain_def truthy_def show_int_def show_nat.simps)
  then have "stringify_failure_record (duration_record quiet_world bare_message too_long_error)
      \<noteq> stringify_failure_record scan_record"
    using stringify_failure_record_videoId by blast
  then have h2: "stringify_failure_record (duration_record quiet_world bare_message too_long_error)
      \<notin> set (failedVideos scan_state)"
    using generateVideoId_not_record
      [of "page_message 7" "duration_record quiet_world bare_message too_long_error"]
    by (auto simp: scan_state_def)
  from failureReason_priority_and_duration_record
    [of too_long_error quiet_world bare_message scan_state] h1 h2
  show ?thesis by blast
qed

theorem failureReason_spec_priority_counterexample:
  "triggers SizeExceeded forbidden_large_error
   \<and> triggers ForbiddenPermission forbidden_large_error
   \<and> first_matching spec_priority forbidden_large_error = SizeExceeded
   \<and> reason_text (first_matching spec_priority forbidden_large_error) forbidden_large_error
        = js ''Video file too large''
   \<and> failureReason forbidden_large_error = js ''Twitter API forbidden (video restrictions)''"
proof -
  have a: "str_includes (error_message forbidden_large_error) (js ''too large'')"
    by (simp add: forbidden_large_error_def str_includes_def sublist_Cons_right)
  have b: "str_includes (error_message forbidden_large_error) (js ''Forbidden'')"
    by (simp add: forbidden_large_error_def str_includes_def sublist_Cons_right)
  have c: "\<not> str_includes (error_message forbidden_large_error) (js ''video longer than'')"
    by (simp add: forbidden_large_error_def str_includes_def sublist_Cons_right)
  from a b c show ?thesis
    by (simp add: spec_priority_def failureReason_def)
qed

section \<open>Loading legacy and structured files\<close>

lemma same_value_eq: "same_value y x \<Longrightarrow> y = x"
  by (cases y; cases x) simp_all

lemma set_foldl_add:
  "set (foldl (\<lambda>s x. if list_ex (\<lambda>y. same_value y x) s then s else s @ [x]) acc xs)
     = set acc \<union> set xs"
proof (induction xs arbitrary: acc)
  case Nil
  show ?case by simp
next
  case (Cons x xs)
  have "x \<in> set acc" if "list_ex (\<lambda>y. same_value y x) acc"
    using that same_value_eq by (auto simp: list_ex_iff)
  with Cons.IH show ?case by auto
qed

lemma set_new_Set: "set (new_Set xs) = set xs"
  by (simp add: new_Set_def set_foldl_add)

text \<open>
  Claim C9. For every sequence of identifiers, a file whose JSON text is the bare array
  of the identifiers and a file whose JSON text is an object with the same array in its
  \<open>videos\<close> member load into the same set, with \<open>loadProcessedVideos\<close> and with
  \<open>loadFailedVideos\<close>; a string is a member of the loaded set exactly when it is one of
  the identifiers.
\<close>

theorem legacy_and_structured_files_load_alike:
  assumes "JSON_parse legacy = Some (JArr (map JStr ids))"
    and "JSON_parse structured = Some (JObj members)"
    and "map_of (rev members) (js ''videos'') = Some (JArr (map JStr ids))"
  shows "loadProcessedVideos (Some legacy) = loadProcessedVideos (Some structured)
    \<and> loadFailedVideos (Some legacy) = loadFailedVideos (Some structured)
    \<and> loadProcessedVideos (Some legacy) = new_Set (map JStr ids)
    \<and> loadFailedVideos (Some legacy) = new_Set (map JStr ids)
    \<and> (\<forall>x. Set_values_has (loadProcessedVideos (Some structured)) x \<longleftrightarrow> x \<in> set ids)
    \<and> (\<forall>x. Set_values_has (loadFailedVideos (Some structured)) x \<longleftrightarrow> x \<in> set ids)"
proof -
  have l: "load_videos (Some legacy) = new_Set (map JStr ids)"
    using assms(1) by (simp add: load_videos_def)
  have s: "load_videos (Some structured) = new_Set (map JStr ids)"
    using assms(2,3) by (simp add: load_videos_def)
  have "Set_values_has (new_Set (map JStr ids)) x \<longleftrightarrow> x \<in> set ids" for x
    by (auto simp: Set_values_has_def set_new_Set)
  with l s show ?thesis
    by (simp add: loadProcessedVideos_def loadFailedVideos_def)
qed

theorem legacy_and_structured_files_load_alike_witness:
  "JSON_parse legacy_text = Some (JArr (map JStr [js ''a_1'', js ''b_2'', js ''a_1'']))
   \<and> JSON_parse structured_text
        = Some (JObj [(js ''lastUpdated'', JStr (js ''2024-01-01'')),
                      (js ''totalProcessed'', JNum (js ''2'')),
                      (js ''videos'', JArr (map JStr [js ''a_1'', js ''b_2'', js ''a_1'']))])
   \<and> loadProcessedVideos (Some legacy_text) = [JStr (js ''a_1''), JStr (js ''b_2'')]
   \<and> loadProcessedVideos (Some structured_text) = [JStr (js ''a_1''), JStr (js ''b_2'')]
   \<and> loadFailedVideos (Some legacy_text) = loadFailedVideos (Some structured_text)"
proof -
  have h1: "JSON_parse legacy_text = Some (JArr (map JStr [js ''a_1'', js ''b_2'', js ''a_1'']))"
    by code_simp
  have h2: "JSON_parse structured_text
        = Some (JObj [(js ''lastUpdated'', JStr (js ''2024-01-01'')),
                      (js ''totalProcessed'', JNum (js ''2'')),
                      (js ''videos'', JArr (map JStr [js ''a_1'', js ''b_2'', js ''a_1'']))])"
    by code_simp
  have h3: "map_of (rev [(js ''lastUpdated'', JStr (js ''2024-01-01'')),
                      (js ''totalProcessed'', JNum (js ''2'')),
                      (js ''videos'', JArr (map JStr [js ''a_1'', js ''b_2'', js ''a_1'']))])
              (js ''videos'')
        = Some (JArr (map JStr [js ''a_1'', js ''b_2'', js ''a_1'']))"
    by simp
  have n: "new_Set (map JStr [js ''a_1'', js ''b_2'', js ''a_1''])
      = [JStr (js ''a_1''), JStr (js ''b_2'')]"
    by (simp add: new_Set_def)
  note t = legacy_and_structured_files_load_alike [OF h1 h2 h3]
  from t have a: "loadProcessedVideos (Some legacy_text) = [JStr (js ''a_1''), JStr (js ''b_2'')]"
    unfolding n by blast
  from t have b: "loadProcessedVideos (Some structured_text)
      = loadProcessedVideos (Some legacy_text)"
    by simp
  from t have c: "loadFailedVideos (Some legacy_text) = loadFailedVideos (Some structured_text)"
    by blast
  from a b c h1 h2 show ?thesis by (simp only: simp_thms)
qed

end
